theory Spec2Isabelle
  imports Complex_Main "HOL-Library.AList"
begin

section \<open>JavaScript values and string operations\<close>

text \<open>
  A value that is thrown: an \<open>Error\<close> object with its message, or anything else (the
  handlers test \<open>error instanceof Error\<close>). A rejected promise is \<open>Inl\<close> of the thrown
  value, a fulfilled one \<open>Inr\<close> of the result.
\<close>

datatype thrown = Error string | NonError

text \<open>\<open>error instanceof Error ? error.message : 'Unknown error'\<close>\<close>

fun error_message :: "thrown \<Rightarrow> string" where
  "error_message (Error m) = m"
| "error_message NonError = ''Unknown error''"

text \<open>
  Texts are strings of 8-bit characters, read as the code units U+0000 to U+00FF. In
  that range the white space of \<open>\s\<close> and of \<open>trim\<close> (the same set in ECMAScript) is
  TAB, LF, VT, FF, CR, SPACE and NO-BREAK SPACE.
\<close>

definition is_space :: "char \<Rightarrow> bool" where
  "is_space c = (let n = (of_char c :: nat) in (9 \<le> n \<and> n \<le> 13) \<or> n = 32 \<or> n = 160)"

definition is_digit :: "char \<Rightarrow> bool" where
  "is_digit c = (let n = (of_char c :: nat) in 48 \<le> n \<and> n \<le> 57)"

definition is_alpha :: "char \<Rightarrow> bool" where
  "is_alpha c = (let n = (of_char c :: nat) in (65 \<le> n \<and> n \<le> 90) \<or> (97 \<le> n \<and> n \<le> 122))"

text \<open>\<open>toLowerCase\<close> on the ASCII letters, which is all the patterns below look at.\<close>

definition to_lower :: "char \<Rightarrow> char" where
  "to_lower c = (let n = (of_char c :: nat) in if 65 \<le> n \<and> n \<le> 90 then char_of (n + 32) else c)"

definition toLowerCase :: "string \<Rightarrow> string" where
  "toLowerCase s = map to_lower s"

text \<open>\<open>String.prototype.trim\<close>\<close>

definition trim :: "string \<Rightarrow> string" where
  "trim s = rev (dropWhile is_space (rev (dropWhile is_space s)))"

text \<open>\<open>Array.prototype.join\<close>\<close>

fun join :: "string \<Rightarrow> string list \<Rightarrow> string" where
  "join sep [] = []"
| "join sep [x] = x"
| "join sep (x # y # ys) = x @ sep @ join sep (y # ys)"

text \<open>\<open>s.startsWith(p)\<close> and \<open>s.includes(p)\<close>\<close>

fun startsWith :: "string \<Rightarrow> string \<Rightarrow> bool" where
  "startsWith s [] = True"
| "startsWith [] (p # ps) = False"
| "startsWith (c # cs) (p # ps) = (c = p \<and> startsWith cs ps)"

fun str_includes :: "string \<Rightarrow> string \<Rightarrow> bool" where
  "str_includes [] p = (p = [])"
| "str_includes (c # cs) p = (startsWith (c # cs) p \<or> str_includes cs p)"

text \<open>
  \<open>content.split(/\s+/)\<close>: the fields between maximal runs of white space. The empty
  text gives one empty field; a text that begins (ends) with white space gives an
  empty first (last) field. \<open>split_from sep\<close> reads the rest of the text, \<open>sep\<close> telling
  whether the previous character belonged to a separator.
\<close>

fun split_from :: "bool \<Rightarrow> string \<Rightarrow> string list" where
  "split_from sep [] = [[]]"
| "split_from sep (c # cs) =
     (if is_space c then (if sep then split_from True cs else [] # split_from True cs)
      else (case split_from False cs of
              [] \<Rightarrow> [[c]]
            | w # ws \<Rightarrow> (c # w) # ws))"

definition split_ws :: "string \<Rightarrow> string list" where
  "split_ws content = split_from False content"

text \<open>
  \<open>Array.prototype.slice(start)\<close> for an integer \<open>start\<close>: a negative \<open>start\<close> counts from
  the end, and \<open>-0\<close> is \<open>0\<close>, so \<open>slice(-0)\<close> is the whole array.
\<close>

definition slice_from :: "int \<Rightarrow> 'a list \<Rightarrow> 'a list" where
  "slice_from start xs =
     (let len = int (length xs);
          k = (if start < 0 then max (len + start) 0 else min start len)
      in drop (nat k) xs)"

text \<open>\<open>Array.prototype.slice(start, end)\<close> for indices that are not negative.\<close>

definition slice :: "nat \<Rightarrow> nat \<Rightarrow> 'a list \<Rightarrow> 'a list" where
  "slice start endIndex xs = take (endIndex - start) (drop start xs)"

text \<open>A natural number in a template literal.\<close>

definition digit_char :: "nat \<Rightarrow> char" where
  "digit_char d = char_of (48 + d)"

function show_nat :: "nat \<Rightarrow> string" where
  "show_nat n = (if n < 10 then [digit_char n] else show_nat (n div 10) @ [digit_char (n mod 10)])"
  by pat_completeness auto
termination
  by (relation "measure id") auto

section \<open>Session memory (class \<open>MemoryService\<close>, types/memory.ts)\<close>

datatype role = User | Assistant

text \<open>
  Times are milliseconds since the epoch (\<open>Date.getTime()\<close>); identifiers come from
  \<open>uuidv4()\<close>. Both are inputs of the operations that read them. An operation body runs
  without suspension, so one clock reading stands for every \<open>new Date()\<close> in it.
\<close>

record MemoryMessage =
  msg_id :: string
  role :: role
  content :: string
  timestamp :: int

record SessionMemory =
  sessionId :: string
  messages :: "MemoryMessage list"
  createdAt :: int
  lastAccessed :: int
  maxMessages :: nat

record MemorySummary =
  lastMessages :: "MemoryMessage list"
  totalMessages :: nat
  sessionAge :: int

text \<open>
  \<open>Map<string, SessionMemory>\<close>: the entries in insertion order. \<open>get\<close> is \<open>map_of\<close>,
  \<open>set\<close> is \<open>AList.update\<close> (an existing key keeps its place, a new one goes last),
  \<open>delete\<close> is \<open>AList.delete\<close>. The keys of a \<open>Map\<close> are distinct.
\<close>

type_synonym sessions = "(string \<times> SessionMemory) list"

definition wf_sessions :: "sessions \<Rightarrow> bool" where
  "wf_sessions ss = distinct (map fst ss)"

text \<open>
  \<open>MemoryService.addMessage\<close>. \<open>cfgMax\<close> is \<open>config.memory.maxMessages\<close>, a count (a
  setting that is negative or not an integer is outside the model); \<open>newId\<close> and \<open>now\<close>
  are the identifier and the time the call reads.
\<close>

definition addMessage ::
  "nat \<Rightarrow> string \<Rightarrow> int \<Rightarrow> sessions \<Rightarrow> string \<Rightarrow> role \<Rightarrow> string \<Rightarrow> sessions" where
  "addMessage cfgMax newId now ss sid r c =
     (let message = \<lparr>msg_id = newId, role = r, content = c, timestamp = now\<rparr>;
          session = (case map_of ss sid of
                       Some s \<Rightarrow> s
                     | None \<Rightarrow> \<lparr>sessionId = sid, messages = [], createdAt = now,
                                lastAccessed = now, maxMessages = cfgMax\<rparr>);
          pushed = session\<lparr>messages := messages session @ [message], lastAccessed := now\<rparr>;
          kept = (if length (messages pushed) > maxMessages pushed
                  then pushed\<lparr>messages := slice_from (- int (maxMessages pushed)) (messages pushed)\<rparr>
                  else pushed)
      in AList.update sid kept ss)"

text \<open>\<open>MemoryService.getMemory\<close>: touches \<open>lastAccessed\<close> on a hit.\<close>

definition getMemory :: "int \<Rightarrow> sessions \<Rightarrow> string \<Rightarrow> SessionMemory option \<times> sessions" where
  "getMemory now ss sid =
     (case map_of ss sid of
        Some s \<Rightarrow> (Some (s\<lparr>lastAccessed := now\<rparr>), AList.update sid (s\<lparr>lastAccessed := now\<rparr>) ss)
      | None \<Rightarrow> (None, ss))"

text \<open>The store in which the session \<open>sid\<close>, if there is one, was last accessed at \<open>now\<close>.\<close>

definition touched :: "int \<Rightarrow> string \<Rightarrow> sessions \<Rightarrow> sessions" where
  "touched now sid ss =
     (case map_of ss sid of
        None \<Rightarrow> ss
      | Some s \<Rightarrow> AList.update sid (s\<lparr>lastAccessed := now\<rparr>) ss)"

text \<open>
  \<open>MemoryService.getSummary\<close>; \<open>messageCount\<close> is \<open>None\<close> when the argument is left out
  (default 2).
\<close>

definition getSummary ::
  "int \<Rightarrow> sessions \<Rightarrow> string \<Rightarrow> nat option \<Rightarrow> MemorySummary \<times> sessions" where
  "getSummary now ss sid messageCount =
     (let count = (case messageCount of None \<Rightarrow> 2 | Some k \<Rightarrow> k);
          (session, ss') = getMemory now ss sid
      in case session of
           None \<Rightarrow> (\<lparr>lastMessages = [], totalMessages = 0, sessionAge = 0\<rparr>, ss')
         | Some s \<Rightarrow>
             (\<lparr>lastMessages = slice_from (- int count) (messages s),
               totalMessages = length (messages s),
               sessionAge = (now - createdAt s) div (1000 * 60)\<rparr>, ss'))"

fun role_name :: "role \<Rightarrow> string" where
  "role_name User = ''user''"
| "role_name Assistant = ''assistant''"

text \<open>\<open>MemoryService.getFormattedSummary\<close>, with its own default of 2 for \<open>messageCount\<close>.\<close>

definition getFormattedSummary ::
  "int \<Rightarrow> sessions \<Rightarrow> string \<Rightarrow> nat option \<Rightarrow> string \<times> sessions" where
  "getFormattedSummary now ss sid messageCount =
     (let count = (case messageCount of None \<Rightarrow> 2 | Some k \<Rightarrow> k);
          (summary, ss') = getSummary now ss sid (Some count)
      in if length (lastMessages summary) = 0
         then (''No previous conversation history.'', ss')
         else (''Previous conversation (last '' @ show_nat (length (lastMessages summary))
               @ '' messages):'' @ [CHR 0x0A]
               @ join [CHR 0x0A]
                   (map (\<lambda>msg. role_name (role msg) @ '': '' @ content msg) (lastMessages summary)),
               ss'))"

text \<open>\<open>MemoryService.clearMemory\<close>\<close>

definition clearMemory :: "sessions \<Rightarrow> string \<Rightarrow> sessions" where
  "clearMemory ss sid = AList.delete sid ss"

text \<open>
  \<open>MemoryService.cleanupOldSessions\<close>: \<open>maxAgeMinutes\<close> is \<open>None\<close> when the argument is
  left out (default 1440). The promise resolves to no value (\<open>Promise<void>\<close>); the
  number of removed sessions goes to the console only.
\<close>

record cleanup_result =
  remaining :: sessions
  resolved :: unit
  console :: "string list"

definition cutoff_of :: "int \<Rightarrow> int option \<Rightarrow> int" where
  "cutoff_of now maxAgeMinutes =
     now - (case maxAgeMinutes of None \<Rightarrow> 1440 | Some m \<Rightarrow> m) * 60 * 1000"

definition cleanupOldSessions :: "int \<Rightarrow> sessions \<Rightarrow> int option \<Rightarrow> cleanup_result" where
  "cleanupOldSessions now ss maxAgeMinutes =
     (let cutoff = cutoff_of now maxAgeMinutes;
          sessionsToDelete = map fst (filter (\<lambda>(sid, session). lastAccessed session < cutoff) ss);
          ss' = foldl (\<lambda>m sid. AList.delete sid m) ss sessionsToDelete
      in \<lparr>remaining = ss', resolved = (),
          console = (if length sessionsToDelete > 0
                     then [''Cleaned up '' @ show_nat (length sessionsToDelete) @ '' old sessions'']
                     else [])\<rparr>)"

text \<open>\<open>MemoryService.getStats\<close>\<close>

definition getStats :: "sessions \<Rightarrow> nat \<times> nat" where
  "getStats ss = (length ss, foldl (\<lambda>total (sid, session). total + length (messages session)) 0 ss)"

text \<open>
  A sequence of \<open>addMessage\<close> calls on one store, each with the session it addresses, the
  identifier and time it reads, the role and the content; and the messages such a
  sequence appends to one session, in order.
\<close>

type_synonym add_call = "string \<times> string \<times> int \<times> role \<times> string"

fun addMessages :: "nat \<Rightarrow> sessions \<Rightarrow> add_call list \<Rightarrow> sessions" where
  "addMessages cfgMax ss [] = ss"
| "addMessages cfgMax ss ((sid, newId, now, r, c) # calls) =
     addMessages cfgMax (addMessage cfgMax newId now ss sid r c) calls"

fun appended :: "string \<Rightarrow> add_call list \<Rightarrow> MemoryMessage list" where
  "appended sid [] = []"
| "appended sid ((sid', newId, now, r, c) # calls) =
     (if sid' = sid
      then \<lparr>msg_id = newId, role = r, content = c, timestamp = now\<rparr> # appended sid calls
      else appended sid calls)"

text \<open>The last \<open>n\<close> elements of a list, in order.\<close>

definition last_n :: "nat \<Rightarrow> 'a list \<Rightarrow> 'a list" where
  "last_n n xs = drop (length xs - n) xs"

section \<open>Plugins (types/plugins.ts)\<close>

text \<open>
  \<open>PluginResult\<close>: the plugin's name, the success flag, an optional payload and an
  optional error message. The source types the payload \<open>any\<close>; here it is a type
  parameter.
\<close>

record 'd PluginResult =
  name :: string
  success :: bool
  data :: "'d option"
  error :: "string option"

text \<open>
  \<open>Plugin\<close>: a name, a description, the intent predicate and the execute operation,
  whose promise may reject.
\<close>

record 'd Plugin =
  pname :: string
  description :: string
  detectIntent :: "string \<Rightarrow> bool"
  execute :: "string \<Rightarrow> thrown + 'd PluginResult"

section \<open>The math plugin (class \<open>MathPlugin\<close>, services/plugins/math.ts)\<close>

text \<open>
  What \<open>evaluate\<close> of the mathjs library returns: a finite number, a number that is not
  finite (an infinity or NaN), or a value that is not of type number. The library is
  not part of the repository: it is a parameter \<open>mathjs\<close> of the plugin, a function from
  the expression text to the value returned or the error thrown. Finite numbers are
  rationals; rounding to a double is not modelled.
\<close>

datatype js_value = Number rat | NonFinite | NotNumber

record MathResult =
  expression :: string
  result :: rat
  m_timestamp :: int

text \<open>The character class \<open>[\d\+\-\*\/\(\)\.\s]\<close>\<close>

definition safe_char :: "char \<Rightarrow> bool" where
  "safe_char c = (is_digit c \<or> c \<in> set ''+-*/().'' \<or> is_space c)"

text \<open>\<open>(expression.match(/\(/g) || []).length\<close> and the like: the occurrences of a character.\<close>

definition count_char :: "char \<Rightarrow> string \<Rightarrow> nat" where
  "count_char c s = length (filter (\<lambda>x. x = c) s)"

text \<open>\<open>MathPlugin.isSafeExpression\<close>\<close>

definition isSafeExpression :: "string \<Rightarrow> bool" where
  "isSafeExpression e =
     (if \<not> (e \<noteq> [] \<and> list_all safe_char e) then False
      else if str_includes e ''/0'' then False
      else if count_char CHR ''('' e \<noteq> count_char CHR '')'' e then False
      else True)"

text \<open>
  \<open>MathPlugin.evaluate\<close>: every error raised inside the \<open>try\<close> block, the plugin's own and
  the library's, is caught and replaced by \<open>Failed to evaluate: <expression>\<close>.
\<close>

definition evaluate ::
  "(string \<Rightarrow> thrown + js_value) \<Rightarrow> int \<Rightarrow> string \<Rightarrow> thrown + MathResult" where
  "evaluate mathjs now e =
     (let cleanExpression = filter (\<lambda>c. \<not> is_space c) e;
          attempt =
            (if \<not> isSafeExpression cleanExpression
             then Inl (Error ''Expression contains unsafe operations'')
             else (case mathjs cleanExpression of
                     Inl err \<Rightarrow> Inl err
                   | Inr (Number r) \<Rightarrow>
                       Inr \<lparr>expression = cleanExpression, result = r, m_timestamp = now\<rparr>
                   | Inr _ \<Rightarrow> Inl (Error ''Invalid result'')))
      in case attempt of
           Inl _ \<Rightarrow> Inl (Error (''Failed to evaluate: '' @ e))
         | Inr r \<Rightarrow> Inr r)"

text \<open>
  The intent pattern \<open>/(\d+(?:\s*[\+\-\*\/]\s*\d+)+)/\<close>. \<open>math_tail s\<close> is the text that the
  greedy repetition \<open>(?:\s*[\+\-\*\/]\s*\d+)*\<close> matches at the start of \<open>s\<close>; \<open>math_at s\<close> is
  the match that starts at the first character of \<open>s\<close>; \<open>math_match\<close> is the leftmost match
  (\<open>mathMatch[1]\<close>).
\<close>

definition is_op :: "char \<Rightarrow> bool" where
  "is_op c = (c \<in> set ''+-*/'')"

function math_tail :: "string \<Rightarrow> string" where
  "math_tail s =
     (case dropWhile is_space s of
        [] \<Rightarrow> []
      | c # r \<Rightarrow>
          if is_op c \<and> takeWhile is_digit (dropWhile is_space r) \<noteq> []
          then takeWhile is_space s @ [c] @ takeWhile is_space r
               @ takeWhile is_digit (dropWhile is_space r)
               @ math_tail (dropWhile is_digit (dropWhile is_space r))
          else [])"
  by pat_completeness auto
termination
proof (relation "measure length")
  show "wf (measure length)" by simp
next
  fix s :: string and c r
  assume "dropWhile is_space s = c # r"
  then have "length r < length s"
    using length_dropWhile_le [of is_space s] by simp
  moreover have "length (dropWhile is_digit (dropWhile is_space r)) \<le> length r"
    using length_dropWhile_le [of is_digit "dropWhile is_space r"]
          length_dropWhile_le [of is_space r] by linarith
  ultimately show "(dropWhile is_digit (dropWhile is_space r), s) \<in> measure length"
    by simp
qed

definition math_at :: "string \<Rightarrow> string option" where
  "math_at s =
     (let ds = takeWhile is_digit s; t = math_tail (dropWhile is_digit s)
      in if ds \<noteq> [] \<and> t \<noteq> [] then Some (ds @ t) else None)"

fun math_match :: "string \<Rightarrow> string option" where
  "math_match [] = None"
| "math_match (c # cs) =
     (case math_at (c # cs) of Some m \<Rightarrow> Some m | None \<Rightarrow> math_match cs)"

text \<open>
  Modelled from the spec: the external evaluator (mathjs, not part of the repository),
  on the expressions the intent pattern extracts once white space is removed: decimal
  integers separated by \<open>+ - * /\<close>, evaluated "using standard operator precedence", left
  to right within a precedence level. A division by zero gives a number that is not
  finite, and so does every operation on one. Any other text is a syntax error here.
  It serves as an instance of the parameter \<open>mathjs\<close>.
\<close>

datatype tok = TNum nat | TOp char

fun tokens :: "nat option \<Rightarrow> string \<Rightarrow> tok list option" where
  "tokens cur [] = (case cur of None \<Rightarrow> None | Some n \<Rightarrow> Some [TNum n])"
| "tokens cur (c # cs) =
     (if is_digit c
      then tokens (Some (10 * (case cur of None \<Rightarrow> 0 | Some n \<Rightarrow> n) + (of_char c - 48))) cs
      else if is_op c
      then (case cur of
              None \<Rightarrow> None
            | Some n \<Rightarrow> map_option (\<lambda>ts. TNum n # TOp c # ts) (tokens None cs))
      else None)"

text \<open>
  \<open>eval_ops acc cur ts\<close>: \<open>acc\<close> is the sum of the terms already closed, \<open>cur\<close> the
  product being built, \<open>ts\<close> the operators and operands still to read.
\<close>

fun eval_ops :: "rat \<Rightarrow> rat \<Rightarrow> tok list \<Rightarrow> js_value" where
  "eval_ops acc cur [] = Number (acc + cur)"
| "eval_ops acc cur (TOp c # TNum n # ts) =
     (if c = CHR ''+'' then eval_ops (acc + cur) (of_nat n) ts
      else if c = CHR ''-'' then eval_ops (acc + cur) (- of_nat n) ts
      else if c = CHR ''*'' then eval_ops acc (cur * of_nat n) ts
      else if c = CHR ''/'' then (if n = 0 then NonFinite else eval_ops acc (cur / of_nat n) ts)
      else NotNumber)"
| "eval_ops acc cur ts = NotNumber"

definition precedence_eval :: "string \<Rightarrow> thrown + js_value" where
  "precedence_eval e =
     (case tokens None e of
        Some (TNum n # ts) \<Rightarrow> Inr (eval_ops 0 (of_nat n) ts)
      | _ \<Rightarrow> Inl (Error ''SyntaxError''))"

section \<open>The weather plugin (class \<open>WeatherPlugin\<close>, services/plugins/weather.ts)\<close>

record WeatherData =
  temperature :: int
  condition :: string
  location :: string
  w_timestamp :: int
  humidity :: "rat option"
  windSpeed :: "rat option"

text \<open>
  The intent pattern \<open>/weather\s+(?:in\s+)?([a-zA-Z\s]+)/i\<close>, as the backtracking matcher
  runs it. \<open>class_run s\<close> is the longest prefix of \<open>s\<close> in \<open>[a-zA-Z\s]\<close>. \<open>capture_after ws r\<close>
  is the capture group when a run \<open>ws\<close> of white space matched by \<open>\s+\<close> is followed by \<open>r\<close>:
  the class run of \<open>r\<close>, or, when that is empty, the last character that \<open>\s+\<close> can give
  back. \<open>weather_after\<close> reads what follows the word: first with the optional group
  \<open>in\s+\<close>, then without it. \<open>weather_match\<close> is the capture of the leftmost match
  (\<open>weatherMatch[1]\<close>).
\<close>

definition class_run :: "string \<Rightarrow> string" where
  "class_run s = takeWhile (\<lambda>c. is_alpha c \<or> is_space c) s"

definition capture_after :: "string \<Rightarrow> string \<Rightarrow> string option" where
  "capture_after ws r =
     (if class_run r \<noteq> [] then Some (class_run r)
      else if 2 \<le> length ws then Some [last ws]
      else None)"

definition weather_after :: "string \<Rightarrow> string option" where
  "weather_after rest =
     (let ws = takeWhile is_space rest; r = dropWhile is_space rest
      in if ws = [] then None
         else (case (if startsWith (toLowerCase r) ''in''
                        \<and> takeWhile is_space (drop 2 r) \<noteq> []
                     then capture_after (takeWhile is_space (drop 2 r))
                            (dropWhile is_space (drop 2 r))
                     else None) of
                 Some cap \<Rightarrow> Some cap
               | None \<Rightarrow> capture_after ws r))"

fun weather_match :: "string \<Rightarrow> string option" where
  "weather_match [] = None"
| "weather_match (c # cs) =
     (if startsWith (toLowerCase (c # cs)) ''weather''
      then (case weather_after (drop 7 (c # cs)) of
              Some cap \<Rightarrow> Some cap
            | None \<Rightarrow> weather_match cs)
      else weather_match cs)"

text \<open>
  The OpenWeather request for a city, as the plugin sees it: \<open>fetch\<close> rejects (also when
  the URL cannot be encoded); or the response is not \<open>ok\<close>, with its status and the
  outcome of \<open>response.text()\<close>; or it is \<open>ok\<close>, with the outcome of \<open>response.json()\<close> and
  of reading \<open>main.temp\<close>, \<open>weather[0].main\<close>, \<open>name\<close>, \<open>main.humidity\<close> and \<open>wind.speed\<close> from
  the body (a missing object there raises a \<open>TypeError\<close>).
\<close>

record owm_body =
  main_temp :: rat
  weather0_main :: string
  body_name :: string
  main_humidity :: "rat option"
  wind_speed :: "rat option"

datatype owm_reply =
    FetchRejected thrown
  | HttpNotOk nat "thrown + string"
  | HttpOk "thrown + owm_body"

text \<open>The replies on which the \<open>try\<close> block of \<open>getWeather\<close> throws.\<close>

fun owm_failed :: "owm_reply \<Rightarrow> bool" where
  "owm_failed (FetchRejected err) = True"
| "owm_failed (HttpNotOk status t) = True"
| "owm_failed (HttpOk (Inl err)) = True"
| "owm_failed (HttpOk (Inr body)) = False"

text \<open>The four readings of \<open>Math.random()\<close> in \<open>getMockWeather\<close>, in the order they are made.\<close>

record randoms =
  r_condition :: rat
  r_temp :: rat
  r_humidity :: rat
  r_wind :: rat

text \<open>\<open>WeatherPlugin.getMockWeather\<close>\<close>

definition getMockWeather :: "randoms \<Rightarrow> int \<Rightarrow> string \<Rightarrow> WeatherData" where
  "getMockWeather rnd now city =
     (let conditions = [''Sunny'', ''Cloudy'', ''Rainy'', ''Partly Cloudy''];
          i = \<lfloor>r_condition rnd * 4\<rfloor>;
          randomCondition = (if 0 \<le> i \<and> i < 4 then Some (conditions ! nat i) else None);
          randomTemp = \<lfloor>r_temp rnd * 30\<rfloor> + 10
      in \<lparr>temperature = randomTemp,
          condition = (case randomCondition of Some c \<Rightarrow> c | None \<Rightarrow> ''Sunny''),
          location = city,
          w_timestamp = now,
          humidity = Some (of_int (\<lfloor>r_humidity rnd * 40\<rfloor> + 40)),
          windSpeed = Some (of_int (\<lfloor>r_wind rnd * 20\<rfloor> + 5))\<rparr>)"

text \<open>
  \<open>WeatherPlugin.getWeather\<close>: \<open>apiKey\<close> is \<open>config.weather.apiKey || ''\<close>, \<open>owm\<close> the
  OpenWeather service. Whatever is thrown inside the \<open>try\<close> block is caught and replaced
  by mock data.
\<close>

definition getWeather ::
  "string \<Rightarrow> (string \<Rightarrow> owm_reply) \<Rightarrow> randoms \<Rightarrow> int \<Rightarrow> string \<Rightarrow> thrown + WeatherData" where
  "getWeather apiKey owm rnd now city =
     (let attempt =
            (if apiKey = [] then Inr (getMockWeather rnd now city)
             else (case owm city of
                     FetchRejected err \<Rightarrow> Inl err
                   | HttpNotOk status (Inl err) \<Rightarrow> Inl err
                   | HttpNotOk status (Inr errorText) \<Rightarrow>
                       Inl (Error (''Weather API error: '' @ show_nat status @ '' - '' @ errorText))
                   | HttpOk (Inl err) \<Rightarrow> Inl err
                   | HttpOk (Inr body) \<Rightarrow>
                       Inr \<lparr>temperature = round (main_temp body),
                            condition = weather0_main body,
                            location = body_name body,
                            w_timestamp = now,
                            humidity = main_humidity body,
                            windSpeed = wind_speed body\<rparr>))
      in case attempt of
           Inl _ \<Rightarrow> Inr (getMockWeather rnd now city)
         | Inr w \<Rightarrow> Inr w)"

text \<open>The payload of a plugin result in this repository.\<close>

datatype plugin_data = WeatherPayload WeatherData | MathPayload MathResult

text \<open>\<open>WeatherPlugin.execute\<close>\<close>

definition weather_execute ::
  "string \<Rightarrow> (string \<Rightarrow> owm_reply) \<Rightarrow> randoms \<Rightarrow> int \<Rightarrow> string \<Rightarrow> plugin_data PluginResult" where
  "weather_execute apiKey owm rnd now message =
     (case weather_match message of
        None \<Rightarrow> \<lparr>name = ''weather'', success = False, data = None,
                  error = Some ''No city found in message''\<rparr>
      | Some cap \<Rightarrow>
          (let city = trim cap
           in case getWeather apiKey owm rnd now city of
                Inr weatherData \<Rightarrow>
                  \<lparr>name = ''weather'', success = True, data = Some (WeatherPayload weatherData),
                   error = None\<rparr>
              | Inl err \<Rightarrow>
                  \<lparr>name = ''weather'', success = False, data = None,
                   error = Some (error_message err)\<rparr>))"

definition WeatherPlugin ::
  "string \<Rightarrow> (string \<Rightarrow> owm_reply) \<Rightarrow> randoms \<Rightarrow> int \<Rightarrow> plugin_data Plugin" where
  "WeatherPlugin apiKey owm rnd now =
     \<lparr>pname = ''weather'',
      description = ''Get weather information for cities'',
      detectIntent = (\<lambda>message. weather_match message \<noteq> None),
      execute = (\<lambda>message. Inr (weather_execute apiKey owm rnd now message))\<rparr>"

text \<open>\<open>MathPlugin.execute\<close> and the plugin object.\<close>

definition math_execute ::
  "(string \<Rightarrow> thrown + js_value) \<Rightarrow> int \<Rightarrow> string \<Rightarrow> plugin_data PluginResult" where
  "math_execute mathjs now message =
     (case math_match message of
        None \<Rightarrow> \<lparr>name = ''math'', success = False, data = None,
                  error = Some ''No mathematical expression found in message''\<rparr>
      | Some e \<Rightarrow>
          (case evaluate mathjs now e of
             Inr mathResult \<Rightarrow>
               \<lparr>name = ''math'', success = True, data = Some (MathPayload mathResult),
                error = None\<rparr>
           | Inl err \<Rightarrow>
               \<lparr>name = ''math'', success = False, data = None,
                error = Some (error_message err)\<rparr>))"

definition MathPlugin :: "(string \<Rightarrow> thrown + js_value) \<Rightarrow> int \<Rightarrow> plugin_data Plugin" where
  "MathPlugin mathjs now =
     \<lparr>pname = ''math'',
      description = ''Evaluate mathematical expressions safely'',
      detectIntent = (\<lambda>message. math_match message \<noteq> None),
      execute = (\<lambda>message. Inr (math_execute mathjs now message))\<rparr>"

section \<open>Plugin dispatch (class \<open>PluginManager\<close>, services/plugin-manager.ts)\<close>

text \<open>
  \<open>PluginManager.detectAndExecutePlugins\<close>: one pass over \<open>this.plugins\<close> in order; a
  plugin whose predicate holds is executed, and a rejection becomes a failure result
  with the plugin's name.
\<close>

fun detectAndExecutePlugins :: "'d Plugin list \<Rightarrow> string \<Rightarrow> 'd PluginResult list" where
  "detectAndExecutePlugins [] message = []"
| "detectAndExecutePlugins (plugin # plugins) message =
     (if detectIntent plugin message then
        (case execute plugin message of
           Inr r \<Rightarrow> r
         | Inl err \<Rightarrow> \<lparr>name = pname plugin, success = False, data = None,
                       error = Some (error_message err)\<rparr>)
        # detectAndExecutePlugins plugins message
      else detectAndExecutePlugins plugins message)"

text \<open>The outcome that dispatch records for one matched plugin.\<close>

definition outcome_of :: "'d Plugin \<Rightarrow> string \<Rightarrow> 'd PluginResult" where
  "outcome_of plugin message =
     (case execute plugin message of
        Inr r \<Rightarrow> r
      | Inl err \<Rightarrow> \<lparr>name = pname plugin, success = False, data = None,
                    error = Some (error_message err)\<rparr>)"

text \<open>\<open>PluginManager.getAvailablePlugins\<close>\<close>

definition getAvailablePlugins :: "'d Plugin list \<Rightarrow> string list" where
  "getAvailablePlugins plugins = map pname plugins"

section \<open>Configuration (config/index.ts)\<close>

text \<open>The settings the modelled services read.\<close>

record Config =
  cfg_maxMessages :: nat
  cfg_maxChunkTokens :: nat
  cfg_maxSearchResults :: nat
  cfg_weatherApiKey :: string

section \<open>JavaScript numbers\<close>

text \<open>
  A number is an IEEE 754 double: finite, an infinity or NaN. A finite double is written
  as the rational it equals, and \<open>Finite r\<close> for any rational \<open>r\<close> stands for the double
  nearest to \<open>r\<close>, which is how a decimal literal and a JSON number are read: the
  operations below round their operands first. The two zeros are one value, since no
  operation used here tells them apart.
\<close>

datatype number = Finite rat | PosInf | NegInf | NaN

text \<open>Rounding to an integer, a tie going to the even neighbour.\<close>

definition round_even :: "rat \<Rightarrow> int" where
  "round_even x =
     (let f = \<lfloor>x\<rfloor>; d = x - of_int f
      in if d < 1 / 2 then f else if 1 / 2 < d then f + 1 else if even f then f else f + 1)"

text \<open>
  The binary exponent of a positive rational \<open>a\<close>, kept within the exponents of a double:
  the \<open>e\<close> with \<open>2 ^ e \<le> a < 2 ^ (e + 1)\<close>, but at least -1022 (below that the doubles are
  subnormal and equally spaced) and at most 1024 (where rounding overflows).
\<close>

primrec exponent_up :: "nat \<Rightarrow> rat \<Rightarrow> nat" where
  "exponent_up 0 a = 0"
| "exponent_up (Suc n) a = (if a < 2 then 0 else Suc (exponent_up n (a / 2)))"

primrec exponent_down :: "nat \<Rightarrow> rat \<Rightarrow> nat" where
  "exponent_down 0 a = 0"
| "exponent_down (Suc n) a = (if 1 \<le> 2 * a then 1 else Suc (exponent_down n (2 * a)))"

definition binade :: "rat \<Rightarrow> int" where
  "binade a = (if 1 \<le> a then int (exponent_up 1024 a) else - int (exponent_down 1022 a))"

text \<open>
  Round to nearest, ties to even, with 53 significant bits: the multiple of the spacing
  \<open>2 ^ (e - 52)\<close> nearest to a positive rational. A magnitude that rounds to \<open>2 ^ 1024\<close> or
  more becomes an infinity.
\<close>

definition nearest :: "rat \<Rightarrow> rat" where
  "nearest a = (let q = 2 powi (binade a - 52) in of_int (round_even (a / q)) * q)"

definition to_double :: "rat \<Rightarrow> number" where
  "to_double x =
     (if x = 0 then Finite 0
      else let m = nearest \<bar>x\<bar>
           in if 2 ^ 1024 \<le> m then (if 0 < x then PosInf else NegInf)
              else Finite (if 0 < x then m else - m))"

text \<open>The double that a number stands for.\<close>

definition double :: "number \<Rightarrow> number" where
  "double x = (case x of Finite r \<Rightarrow> to_double r | _ \<Rightarrow> x)"

text \<open>\<open>a - b\<close> and \<open>a >= b\<close> on doubles: the exact difference is rounded once.\<close>

fun sub_double :: "number \<Rightarrow> number \<Rightarrow> number" where
  "sub_double NaN b = NaN"
| "sub_double a NaN = NaN"
| "sub_double (Finite x) (Finite y) = to_double (x - y)"
| "sub_double (Finite x) PosInf = NegInf"
| "sub_double (Finite x) NegInf = PosInf"
| "sub_double PosInf PosInf = NaN"
| "sub_double PosInf b = PosInf"
| "sub_double NegInf NegInf = NaN"
| "sub_double NegInf b = NegInf"

fun ge_double :: "number \<Rightarrow> number \<Rightarrow> bool" where
  "ge_double NaN b = False"
| "ge_double a NaN = False"
| "ge_double PosInf b = True"
| "ge_double a NegInf = True"
| "ge_double (Finite x) (Finite y) = (y \<le> x)"
| "ge_double a b = False"

definition num_sub :: "number \<Rightarrow> number \<Rightarrow> number" where
  "num_sub a b = sub_double (double a) (double b)"

definition num_ge :: "number \<Rightarrow> number \<Rightarrow> bool" where
  "num_ge a b = ge_double (double a) (double b)"

text \<open>Truthiness (the zeros and NaN are falsy) and \<open>a || b\<close>.\<close>

definition truthy :: "number \<Rightarrow> bool" where
  "truthy a = (case double a of Finite r \<Rightarrow> r \<noteq> 0 | NaN \<Rightarrow> False | _ \<Rightarrow> True)"

definition num_or :: "number \<Rightarrow> number \<Rightarrow> number" where
  "num_or a b = (if truthy a then a else b)"

section \<open>Retrieval (\<open>WeaviateService.search\<close>, \<open>StreamingRAGService.search\<close>)\<close>

record ResultMetadata =
  md_fileName :: string
  md_processedAt :: string

record SearchResult =
  sr_id :: string
  sr_content :: string
  sr_source :: string
  score :: number
  sr_metadata :: ResultMetadata

text \<open>
  One object of \<open>response.data.Get[className]\<close>: the fields the query asks for and
  \<open>_additional.distance\<close>, a number that may be absent. The Weaviate client is a function
  from the query text and the limit to the objects returned or the error thrown (also
  when the response has no \<open>data\<close>).
\<close>

record raw_hit =
  hit_content :: string
  hit_source :: string
  hit_fileName :: string
  hit_processedAt :: string
  hit_distance :: "number option"

text \<open>
  The score of a hit: \<open>distance ? 1 - (distance || 0) : 0.8\<close>. An absent distance, the
  distance 0 and NaN are falsy.
\<close>

definition score_of :: "number option \<Rightarrow> number" where
  "score_of distance =
     (case distance of
        None \<Rightarrow> double (Finite (4 / 5))
      | Some d \<Rightarrow> if truthy d then num_sub (Finite 1) (num_or d (Finite 0))
                  else double (Finite (4 / 5)))"

text \<open>
  \<open>WeaviateService.search\<close>: each object becomes a result (the identifier is not among
  the fields asked for); an error of the client is thrown again.
\<close>

definition to_result :: "raw_hit \<Rightarrow> SearchResult" where
  "to_result h = \<lparr>sr_id = [], sr_content = hit_content h, sr_source = hit_source h,
                   score = score_of (hit_distance h),
                   sr_metadata = \<lparr>md_fileName = hit_fileName h,
                                  md_processedAt = hit_processedAt h\<rparr>\<rparr>"

definition weaviate_search ::
  "(string \<Rightarrow> nat \<Rightarrow> thrown + raw_hit list) \<Rightarrow> string \<Rightarrow> nat \<Rightarrow> thrown + SearchResult list" where
  "weaviate_search client query limit =
     (case client query limit of
        Inl err \<Rightarrow> Inl err
      | Inr hits \<Rightarrow> Inr (map to_result hits))"

record RAGOptions =
  maxSearchResults :: "nat option"
  similarityThreshold :: "number option"

text \<open>
  \<open>StreamingRAGService.search\<close>: an omitted option is the configured result count or the
  threshold 0.7; the limit goes to \<open>WeaviateService.search\<close>, whose results are filtered by
  \<open>result.score >= similarityThreshold\<close>; an error gives the empty list.
\<close>

definition search ::
  "Config \<Rightarrow> (string \<Rightarrow> nat \<Rightarrow> thrown + raw_hit list) \<Rightarrow> string \<Rightarrow> RAGOptions
     \<Rightarrow> SearchResult list" where
  "search cfg client query options =
     (let limit = (case maxSearchResults options of
                     None \<Rightarrow> cfg_maxSearchResults cfg | Some k \<Rightarrow> k);
          threshold = (case similarityThreshold options of
                         None \<Rightarrow> Finite (7 / 10) | Some t \<Rightarrow> t)
      in case weaviate_search client query limit of
           Inl err \<Rightarrow> []
         | Inr results \<Rightarrow> filter (\<lambda>r. num_ge (score r) threshold) results)"


section \<open>Streaming ingestion (\<open>streamChunksFromFile\<close>, services/rag-streaming.ts)\<close>

record ChunkMetadata =
  fileName :: string
  chunkIndex :: nat
  processedAt :: int

record DocumentChunk =
  chunk_id :: string
  chunk_content :: string
  chunk_source :: string
  metadata :: ChunkMetadata

text \<open>
  What the generator reads besides the file: \<open>uuid k\<close> and \<open>clock k\<close> are the identifier
  and the time read when the chunk with index \<open>k\<close> is built.
\<close>

record chunk_env =
  uuid :: "nat \<Rightarrow> string"
  clock :: "nat \<Rightarrow> int"

text \<open>
  The \<open>while\<close> loop of \<open>streamChunksFromFile\<close>. The state is \<open>startIndex\<close>, \<open>batch\<close> and
  \<open>chunkIndex\<close>; \<open>yielded\<close> collects the batches handed to the consumer so far. With
  \<open>chunkSize = 0\<close> and a word to read the loop never ends: the result is \<open>None\<close>.
\<close>

partial_function (option) chunk_loop ::
  "chunk_env \<Rightarrow> string \<Rightarrow> nat \<Rightarrow> nat \<Rightarrow> string list \<Rightarrow> nat \<Rightarrow> DocumentChunk list \<Rightarrow> nat
     \<Rightarrow> DocumentChunk list list \<Rightarrow> DocumentChunk list list option" where
  "chunk_loop env file chunkSize batchSize words startIndex batch chunkIdx yielded =
     (if startIndex < length words then
        (let endIndex = min (startIndex + chunkSize) (length words);
             chunkContent = trim (join '' '' (slice startIndex endIndex words));
             pushed = (if chunkContent \<noteq> []
                       then batch @ [\<lparr>chunk_id = uuid env chunkIdx,
                                      chunk_content = chunkContent,
                                      chunk_source = file,
                                      metadata = \<lparr>fileName = file, chunkIndex = chunkIdx,
                                                  processedAt = clock env chunkIdx\<rparr>\<rparr>]
                       else batch);
             nextIdx = (if chunkContent \<noteq> [] then chunkIdx + 1 else chunkIdx)
         in if length pushed = batchSize
            then chunk_loop env file chunkSize batchSize words (startIndex + chunkSize) []
                   nextIdx (yielded @ [pushed])
            else chunk_loop env file chunkSize batchSize words (startIndex + chunkSize) pushed
                   nextIdx yielded)
      else Some (if length batch > 0 then yielded @ [batch] else yielded))"

text \<open>
  \<open>streamChunksFromFile\<close>: \<open>file\<close> is the outcome of \<open>fs.readFile\<close>, whose error is thrown
  again before any batch is produced. The result is the sequence of batches the
  generator yields until it returns.
\<close>

definition streamChunksFromFile ::
  "chunk_env \<Rightarrow> thrown + string \<Rightarrow> string \<Rightarrow> nat \<Rightarrow> nat
     \<Rightarrow> (thrown + DocumentChunk list list) option" where
  "streamChunksFromFile env file fileNm chunkSize batchSize =
     (case file of
        Inl err \<Rightarrow> Some (Inl err)
      | Inr doc \<Rightarrow>
          map_option Inr
            (chunk_loop env fileNm chunkSize batchSize (split_ws doc) 0 [] 0 []))"

subsection \<open>What the generator is compared with\<close>

text \<open>
  The consecutive windows of \<open>n\<close> elements of a list; the last one may be shorter. The
  batches of a list of chunks are its windows of \<open>batchSize\<close> chunks.
\<close>

function windows :: "nat \<Rightarrow> 'a list \<Rightarrow> 'a list list" where
  "windows n xs = (if n = 0 \<or> xs = [] then [] else take n xs # windows n (drop n xs))"
  by pat_completeness auto
termination
  by (relation "measure (\<lambda>(n, xs). length xs)") auto

declare windows.simps [simp del]

text \<open>
  The content of the chunk made from one window of words, the contents of the chunks
  made from a list of words (an empty content makes no chunk), and the chunk records
  with indices counted from \<open>k\<close>.
\<close>

definition window_content :: "string list \<Rightarrow> string" where
  "window_content w = trim (join '' '' w)"

definition chunk_contents :: "nat \<Rightarrow> string list \<Rightarrow> string list" where
  "chunk_contents n words = filter (\<lambda>c. c \<noteq> []) (map window_content (windows n words))"

fun mk_chunks :: "chunk_env \<Rightarrow> string \<Rightarrow> nat \<Rightarrow> string list \<Rightarrow> DocumentChunk list" where
  "mk_chunks env file k [] = []"
| "mk_chunks env file k (c # cs) =
     \<lparr>chunk_id = uuid env k, chunk_content = c, chunk_source = file,
      metadata = \<lparr>fileName = file, chunkIndex = k, processedAt = clock env k\<rparr>\<rparr>
     # mk_chunks env file (Suc k) cs"

text \<open>\<open>ceil_div a n\<close> is \<open>a / n\<close> rounded up.\<close>

definition ceil_div :: "nat \<Rightarrow> nat \<Rightarrow> nat" where
  "ceil_div a n = (a + n - 1) div n"

text \<open>
  The tokens of a document are the fields of the split that are not empty. The token
  groups of a list of words are the tokens of each window, for the windows that hold
  one.
\<close>

definition doc_tokens :: "string \<Rightarrow> string list" where
  "doc_tokens doc = filter (\<lambda>w. w \<noteq> []) (split_ws doc)"

definition token_groups :: "nat \<Rightarrow> string list \<Rightarrow> string list list" where
  "token_groups n words =
     filter (\<lambda>g. g \<noteq> []) (map (filter (\<lambda>w. w \<noteq> [])) (windows n words))"

definition starts_with_space :: "string \<Rightarrow> bool" where
  "starts_with_space doc = (case doc of [] \<Rightarrow> False | c # cs \<Rightarrow> is_space c)"

text \<open>
  A string without white space; a list of such strings in which only the first and the
  last may be empty.
\<close>

definition ws_free :: "string \<Rightarrow> bool" where
  "ws_free s = list_all (\<lambda>c. \<not> is_space c) s"

definition tidy :: "string list \<Rightarrow> bool" where
  "tidy w = (list_all ws_free w \<and> list_all (\<lambda>x. x \<noteq> []) (butlast (tl w)))"

section \<open>The language model client (class \<open>GeminiService\<close>, services/gemini.ts)\<close>

datatype llm_role = SystemRole | UserRole | AssistantRole

record LLMMessage =
  llm_role :: llm_role
  llm_content :: string

record LLMRequest =
  req_messages :: "LLMMessage list"
  req_temperature :: "rat option"
  req_maxTokens :: "nat option"

record LLMResponse =
  resp_content :: string
  promptTokens :: nat
  completionTokens :: nat
  totalTokens :: nat

text \<open>
  \<open>this.model\<close>: absent until \<open>initialize\<close> has run with an API key; otherwise the outcome
  of \<open>generateContent(prompt)\<close> and \<open>response.text()\<close>, the text or the error thrown.
\<close>

type_synonym gemini_model = "(string \<Rightarrow> thrown + string) option"

fun role_label :: "llm_role \<Rightarrow> string" where
  "role_label SystemRole = ''System: ''"
| "role_label UserRole = ''User: ''"
| "role_label AssistantRole = ''Assistant: ''"

text \<open>\<open>GeminiService.convertMessagesToPrompt\<close>\<close>

definition convertMessagesToPrompt :: "LLMMessage list \<Rightarrow> string" where
  "convertMessagesToPrompt msgs =
     trim (concat (map (\<lambda>m. role_label (llm_role m) @ llm_content m @ [CHR 0x0A, CHR 0x0A]) msgs))"

text \<open>\<open>GeminiService.estimateTokens\<close>: \<open>Math.ceil(text.length / 4)\<close>\<close>

definition estimateTokens :: "string \<Rightarrow> nat" where
  "estimateTokens t = (length t + 3) div 4"

text \<open>\<open>GeminiService.generateCompletion\<close>: what is caught is logged and thrown again.\<close>

definition generateCompletion :: "gemini_model \<Rightarrow> LLMRequest \<Rightarrow> thrown + LLMResponse" where
  "generateCompletion model request =
     (let attempt =
            (case model of
               None \<Rightarrow> Inl (Error ''Gemini model not initialized - API key required'')
             | Some generate \<Rightarrow>
                 (let prompt = convertMessagesToPrompt (req_messages request)
                  in case generate prompt of
                       Inl err \<Rightarrow> Inl err
                     | Inr t \<Rightarrow>
                         Inr \<lparr>resp_content = t,
                              promptTokens = estimateTokens prompt,
                              completionTokens = estimateTokens t,
                              totalTokens = estimateTokens prompt + estimateTokens t\<rparr>))
      in case attempt of
           Inl err \<Rightarrow> Inl err
         | Inr r \<Rightarrow> Inr r)"

section \<open>The agent pipeline (class \<open>AgentService\<close>, services/agent.ts)\<close>

record RAGResult =
  rag_content :: string
  rag_source :: string
  rag_score :: number
  rag_metadata :: ResultMetadata

text \<open>An entry of \<open>memory_snapshot\<close>; the time stays in milliseconds, not rendered as a string.\<close>

record SnapshotEntry =
  snap_role :: role
  snap_content :: string
  snap_timestamp :: int

record AgentResponse =
  reply :: string
  used_chunks :: "RAGResult list"
  plugins_used :: "plugin_data PluginResult list"
  memory_snapshot :: "SnapshotEntry list"
  session_id :: string

record AgentError =
  err_code :: string
  err_message :: string
  err_sessionId :: string
  err_timestamp :: int

text \<open>
  What one request reads from outside: the identifiers and clock readings of its
  steps, the OpenWeather service, the random source, the evaluator, the Weaviate
  client, the language model, and the rendering of a number in a template literal.
\<close>

record request_env =
  env_id_user :: string
  env_id_assistant :: string
  env_t_user :: int
  env_t_summary :: int
  env_t_plugins :: int
  env_t_assistant :: int
  env_t_response :: int
  env_t_error :: int
  env_owm :: "string \<Rightarrow> owm_reply"
  env_rnd :: randoms
  env_mathjs :: "string \<Rightarrow> thrown + js_value"
  env_weaviate :: "string \<Rightarrow> nat \<Rightarrow> thrown + raw_hit list"
  env_gemini :: gemini_model
  env_num_str :: "rat \<Rightarrow> string"

text \<open>The plugins the constructor of \<open>PluginManager\<close> registers, in this order.\<close>

definition registered_plugins :: "Config \<Rightarrow> request_env \<Rightarrow> plugin_data Plugin list" where
  "registered_plugins cfg env =
     [WeatherPlugin (cfg_weatherApiKey cfg) (env_owm env) (env_rnd env) (env_t_plugins env),
      MathPlugin (env_mathjs env) (env_t_plugins env)]"

text \<open>
  The replacement \<open>message.replace(/what is|define|explain/gi, '')\<close>: every match is
  removed, the alternatives tried in order at each position.
\<close>

fun remove_topic_words :: "string \<Rightarrow> string" where
  "remove_topic_words [] = []"
| "remove_topic_words (c # cs) =
     (if startsWith (toLowerCase (c # cs)) ''what is'' then remove_topic_words (drop 6 cs)
      else if startsWith (toLowerCase (c # cs)) ''define'' then remove_topic_words (drop 5 cs)
      else if startsWith (toLowerCase (c # cs)) ''explain'' then remove_topic_words (drop 6 cs)
      else c # remove_topic_words cs)"

text \<open>\<open>AgentService.enhanceSearchQuery\<close>\<close>

definition enhanceSearchQuery :: "string \<Rightarrow> string" where
  "enhanceSearchQuery message =
     (let lowerMessage = toLowerCase message
      in if str_includes lowerMessage ''what is'' \<or> str_includes lowerMessage ''define''
            \<or> str_includes lowerMessage ''explain''
         then trim (remove_topic_words message) @ '' definition overview introduction basics''
         else if str_includes lowerMessage ''how to'' \<or> str_includes lowerMessage ''how do''
         then message @ '' guide tutorial steps instructions''
         else message)"

text \<open>
  \<open>AgentService.performRAGSearch\<close>: the search itself never throws, so the \<open>catch\<close> branch
  (the empty list) is not reached; \<open>result.score || 0\<close> turns a falsy score into 0.
\<close>

definition performRAGSearch ::
  "Config \<Rightarrow> (string \<Rightarrow> nat \<Rightarrow> thrown + raw_hit list) \<Rightarrow> string \<Rightarrow> RAGResult list" where
  "performRAGSearch cfg client message =
     map (\<lambda>r. \<lparr>rag_content = sr_content r, rag_source = sr_source r,
                rag_score = num_or (score r) (Finite 0), rag_metadata = sr_metadata r\<rparr>)
       (search cfg client (enhanceSearchQuery message)
          \<lparr>maxSearchResults = Some (cfg_maxSearchResults cfg),
             similarityThreshold = Some (Finite (1 / 2))\<rparr>)"

text \<open>\<open>toUpperCase\<close> on the ASCII letters.\<close>

definition to_upper :: "char \<Rightarrow> char" where
  "to_upper c = (let n = (of_char c :: nat) in if 97 \<le> n \<and> n \<le> 122 then char_of (n - 32) else c)"

definition toUpperCase :: "string \<Rightarrow> string" where
  "toUpperCase s = map to_upper s"

text \<open>A line of a template literal, and an optional number in one.\<close>

definition line :: "string \<Rightarrow> string" where
  "line s = s @ [CHR 0x0A]"

definition opt_num :: "(rat \<Rightarrow> string) \<Rightarrow> rat option \<Rightarrow> string" where
  "opt_num num v = (case v of None \<Rightarrow> ''undefined'' | Some x \<Rightarrow> num x)"

text \<open>
  The lines \<open>buildPrompt\<close> writes for one plugin result, \<open>index\<close> counted from 0. A
  successful result named \<open>weather\<close> or \<open>math\<close> has its payload read: without a payload
  that is a \<open>TypeError\<close>; a payload of the other shape has none of the fields read, which
  print as \<open>undefined\<close>.
\<close>

definition plugin_lines ::
  "(rat \<Rightarrow> string) \<Rightarrow> nat \<Rightarrow> plugin_data PluginResult \<Rightarrow> thrown + string" where
  "plugin_lines num index r =
     (if success r then
        (let header = line (show_nat (index + 1) @ ''. '' @ toUpperCase (name r) @ '' Plugin:'')
         in if name r = ''weather'' then
              (case data r of
                 None \<Rightarrow> Inl (Error ''TypeError'')
               | Some (WeatherPayload w) \<Rightarrow>
                   Inr (header
                     @ line (''   Location: '' @ location w)
                     @ line (''   Temperature: '' @ num (of_int (temperature w)) @ [CHR 0xB0] @ ''C'')
                     @ line (''   Condition: '' @ condition w)
                     @ line (''   Humidity: '' @ opt_num num (humidity w) @ ''%'')
                     @ line (''   Wind Speed: '' @ opt_num num (windSpeed w) @ '' km/h''))
               | Some (MathPayload m) \<Rightarrow>
                   Inr (header
                     @ line (''   Location: undefined'')
                     @ line (''   Temperature: undefined'' @ [CHR 0xB0] @ ''C'')
                     @ line (''   Condition: undefined'')
                     @ line (''   Humidity: undefined%'')
                     @ line (''   Wind Speed: undefined km/h'')))
            else if name r = ''math'' then
              (case data r of
                 None \<Rightarrow> Inl (Error ''TypeError'')
               | Some (MathPayload m) \<Rightarrow>
                   Inr (header
                     @ line (''   Expression: '' @ expression m)
                     @ line (''   Result: '' @ num (result m)))
               | Some (WeatherPayload w) \<Rightarrow>
                   Inr (header
                     @ line (''   Expression: undefined'')
                     @ line (''   Result: undefined'')))
            else Inr header)
      else Inr (line (show_nat (index + 1) @ ''. '' @ toUpperCase (name r) @ '' Plugin: Failed - ''
                      @ (case error r of None \<Rightarrow> ''undefined'' | Some e \<Rightarrow> e))))"

text \<open>The \<open>forEach\<close> over the plugin results: the first error ends it.\<close>

fun plugin_section ::
  "(rat \<Rightarrow> string) \<Rightarrow> nat \<Rightarrow> plugin_data PluginResult list \<Rightarrow> thrown + string" where
  "plugin_section num index [] = Inr []"
| "plugin_section num index (r # rs) =
     (case plugin_lines num index r of
        Inl err \<Rightarrow> Inl err
      | Inr ls \<Rightarrow>
          (case plugin_section num (Suc index) rs of
             Inl err \<Rightarrow> Inl err
           | Inr rest \<Rightarrow> Inr (ls @ rest)))"

text \<open>The entries of the document section, \<open>index\<close> counted from 0.\<close>

fun document_entries :: "nat \<Rightarrow> RAGResult list \<Rightarrow> string list" where
  "document_entries index [] = []"
| "document_entries index (r # rs) =
     (line (show_nat (index + 1) @ ''. Source: '' @ rag_source r)
        @ line (''Content: '' @ rag_content r))
     # document_entries (Suc index) rs"

text \<open>The instruction block, a constant of the source.\<close>

definition instructions :: string where
  "instructions =
     line ''## INSTRUCTIONS''
     @ line ''- You are a knowledgeable AI assistant with expertise in various topics''
     @ line ''- Provide comprehensive, confident responses using your general knowledge''
     @ line ''- When documents contain relevant information, use it to enhance your response with specific details and examples''
     @ line (''- Always cite sources when using document information (e.g., '' @ [CHR 0x22]
             @ ''According to [filename]...'' @ [CHR 0x22] @ '')'')
     @ line ''- When plugin results are available, incorporate them naturally into your response''
     @ line ''- For weather queries, provide a friendly summary of the weather data''
     @ line ''- For math queries, confirm the calculation and provide the result clearly''
     @ line (''- Only say '' @ [CHR 0x22] @ ''I don't have enough information'' @ [CHR 0x22]
             @ '' for very specific or technical questions you truly cannot answer'')
     @ line ''- Be helpful, informative, and confident in your responses''"

text \<open>\<open>AgentService.buildPrompt\<close>\<close>

definition buildPrompt ::
  "(rat \<Rightarrow> string) \<Rightarrow> string \<Rightarrow> string \<Rightarrow> RAGResult list \<Rightarrow> plugin_data PluginResult list
     \<Rightarrow> thrown + string" where
  "buildPrompt num message memorySummary ragResults pluginResults =
     (let opening =
            line ''You are a helpful AI assistant with access to conversation memory, document knowledge, and plugin capabilities.''
            @ line []
            @ line ''## CONVERSATION MEMORY''
            @ line memorySummary
            @ line []
            @ line ''## DOCUMENT CONTEXT'';
          documents =
            (if length ragResults > 0 then join [CHR 0x0A] (document_entries 0 ragResults)
             else line ''No relevant documents found.'');
          closing =
            line []
            @ line ''## USER MESSAGE''
            @ line message
            @ line []
            @ instructions
            @ line []
            @ line ''## RESPONSE''
      in if length pluginResults > 0
         then (case plugin_section num 0 pluginResults of
                 Inl err \<Rightarrow> Inl err
               | Inr ps \<Rightarrow>
                   Inr (opening @ documents @ line [] @ line ''## PLUGIN RESULTS'' @ ps @ closing))
         else Inr (opening @ documents @ closing))"

text \<open>The fallback reply of \<open>generateAIResponse\<close>.\<close>

definition fallback_reply :: "string \<Rightarrow> string" where
  "fallback_reply originalMessage =
     ''I understand you asked: '' @ [CHR 0x22] @ originalMessage @ [CHR 0x22]
     @ ''. Based on the available context, I can provide some information, but I'm currently experiencing technical difficulties with my AI generation capabilities.''"

text \<open>The request \<open>generateAIResponse\<close> sends for a prompt.\<close>

definition completion_request :: "string \<Rightarrow> LLMRequest" where
  "completion_request prompt =
     \<lparr>req_messages = [\<lparr>llm_role = UserRole, llm_content = prompt\<rparr>],
      req_temperature = Some (7 / 10), req_maxTokens = Some 1000\<rparr>"

text \<open>\<open>AgentService.generateAIResponse\<close>\<close>

definition generateAIResponse :: "gemini_model \<Rightarrow> string \<Rightarrow> string \<Rightarrow> string" where
  "generateAIResponse model prompt originalMessage =
     (case generateCompletion model (completion_request prompt) of
        Inr llmResponse \<Rightarrow> resp_content llmResponse
      | Inl err \<Rightarrow> fallback_reply originalMessage)"

text \<open>\<open>AgentService.buildResponse\<close>\<close>

definition buildResponse ::
  "int \<Rightarrow> sessions \<Rightarrow> string \<Rightarrow> string \<Rightarrow> RAGResult list \<Rightarrow> plugin_data PluginResult list
     \<Rightarrow> AgentResponse \<times> sessions" where
  "buildResponse now ss sid aiResponse ragResults pluginResults =
     (let (memory, ss') = getMemory now ss sid;
          memorySnapshot =
            (case memory of
               None \<Rightarrow> []
             | Some m \<Rightarrow>
                 map (\<lambda>msg. \<lparr>snap_role = role msg, snap_content = content msg,
                              snap_timestamp = timestamp msg\<rparr>) (messages m))
      in (\<lparr>reply = aiResponse, used_chunks = ragResults, plugins_used = pluginResults,
           memory_snapshot = memorySnapshot, session_id = sid\<rparr>, ss'))"

text \<open>\<open>AgentService.createAgentError\<close>\<close>

definition createAgentError :: "int \<Rightarrow> string \<Rightarrow> string \<Rightarrow> string \<Rightarrow> AgentError" where
  "createAgentError now c m sid =
     \<lparr>err_code = c, err_message = m, err_sessionId = sid, err_timestamp = now\<rparr>"

text \<open>
  Steps 1 to 4 of \<open>processMessage\<close>: the user message is appended, the summary is read,
  the plugins run, the documents are searched. The result is the store after these
  steps, the summary, the plugin results and the search results.
\<close>

definition gather ::
  "Config \<Rightarrow> request_env \<Rightarrow> sessions \<Rightarrow> string \<Rightarrow> string
     \<Rightarrow> sessions \<times> string \<times> plugin_data PluginResult list \<times> RAGResult list" where
  "gather cfg env ss sid message =
     (let ss1 = addMessage (cfg_maxMessages cfg) (env_id_user env) (env_t_user env) ss sid User message;
          (memorySummary, ss2) = getFormattedSummary (env_t_summary env) ss1 sid None;
          pluginResults = detectAndExecutePlugins (registered_plugins cfg env) message;
          ragResults = performRAGSearch cfg (env_weaviate env) message
      in (ss2, memorySummary, pluginResults, ragResults))"

text \<open>Step 5: the prompt of the request, or the error its assembly throws.\<close>

definition request_prompt ::
  "Config \<Rightarrow> request_env \<Rightarrow> sessions \<Rightarrow> string \<Rightarrow> string \<Rightarrow> thrown + string" where
  "request_prompt cfg env ss sid message =
     (let (ss2, memorySummary, pluginResults, ragResults) = gather cfg env ss sid message
      in buildPrompt (env_num_str env) message memorySummary ragResults pluginResults)"

text \<open>
  \<open>AgentService.processMessage\<close>: the response, or the \<open>PROCESSING_FAILED\<close> error that
  replaces whatever the steps throw, and the store afterwards.
\<close>

definition processMessage ::
  "Config \<Rightarrow> request_env \<Rightarrow> sessions \<Rightarrow> string \<Rightarrow> string
     \<Rightarrow> (AgentError + AgentResponse) \<times> sessions" where
  "processMessage cfg env ss sid message =
     (let (ss2, memorySummary, pluginResults, ragResults) = gather cfg env ss sid message
      in case buildPrompt (env_num_str env) message memorySummary ragResults pluginResults of
           Inl err \<Rightarrow>
             (Inl (createAgentError (env_t_error env) ''PROCESSING_FAILED''
                     ''Failed to process message'' sid), ss2)
         | Inr prompt \<Rightarrow>
             (let aiResponse = generateAIResponse (env_gemini env) prompt message;
                  ss3 = addMessage (cfg_maxMessages cfg) (env_id_assistant env)
                          (env_t_assistant env) ss2 sid Assistant aiResponse;
                  (response, ss4) = buildResponse (env_t_response env) ss3 sid aiResponse
                                      ragResults pluginResults
              in (Inr response, ss4)))"

section \<open>Concrete inputs used by the witnesses\<close>

text \<open>A plugin that always applies and whose \<open>execute\<close> rejects, and one that never applies.\<close>

definition failing_plugin :: "plugin_data Plugin" where
  "failing_plugin = \<lparr>pname = ''weather'', description = ''always down'',
      detectIntent = (\<lambda>m. True), execute = (\<lambda>m. Inl (Error ''service down''))\<rparr>"

definition silent_plugin :: "plugin_data Plugin" where
  "silent_plugin = \<lparr>pname = ''quiet'', description = ''never applies'',
      detectIntent = (\<lambda>m. False), execute = (\<lambda>m. Inl NonError)\<rparr>"

text \<open>The defaults of the environment schema.\<close>

definition default_config :: Config where
  "default_config = \<lparr>cfg_maxMessages = 10, cfg_maxChunkTokens = 30, cfg_maxSearchResults = 3,
      cfg_weatherApiKey = []\<rparr>"

text \<open>
  An OpenWeather service that refuses the key, and readings of \<open>Math.random()\<close> that are
  all one half.
\<close>

definition unauthorized :: "string \<Rightarrow> owm_reply" where
  "unauthorized city = HttpNotOk 401 (Inr ''Invalid API key'')"

definition half :: randoms where
  "half = \<lparr>r_condition = 1 / 2, r_temp = 1 / 2, r_humidity = 1 / 2, r_wind = 1 / 2\<rparr>"

text \<open>
  Three objects of the index, at the distances 0.05, 0.4 and 0.7, and a Weaviate client
  that returns them nearest first, as many as the limit allows.
\<close>

definition alpha_hit :: raw_hit where
  "alpha_hit = \<lparr>hit_content = ''alpha'', hit_source = ''a.md'', hit_fileName = ''a.md'',
                 hit_processedAt = ''t1'', hit_distance = Some (Finite (1 / 20))\<rparr>"

definition beta_hit :: raw_hit where
  "beta_hit = \<lparr>hit_content = ''beta'', hit_source = ''b.md'', hit_fileName = ''b.md'',
                hit_processedAt = ''t2'', hit_distance = Some (Finite (2 / 5))\<rparr>"

definition gamma_hit :: raw_hit where
  "gamma_hit = \<lparr>hit_content = ''gamma'', hit_source = ''c.md'', hit_fileName = ''c.md'',
                 hit_processedAt = ''t3'', hit_distance = Some (Finite (7 / 10))\<rparr>"

definition three_hits :: "string \<Rightarrow> nat \<Rightarrow> thrown + raw_hit list" where
  "three_hits query limit = Inr (take limit [alpha_hit, beta_hit, gamma_hit])"




text \<open>A client whose only object is at the distance 0.8.\<close>

definition far_match :: "string \<Rightarrow> nat \<Rightarrow> thrown + raw_hit list" where
  "far_match query limit = Inr (take limit [gamma_hit\<lparr>hit_distance := Some (Finite (4 / 5))\<rparr>])"

text \<open>A store with one session, created and last accessed at time 0.\<close>

definition idle_session :: SessionMemory where
  "idle_session = \<lparr>sessionId = ''s1'',
      messages = [\<lparr>msg_id = ''m1'', role = User, content = ''hello'', timestamp = 0\<rparr>],
      createdAt = 0, lastAccessed = 0, maxMessages = 10\<rparr>"

definition idle_store :: sessions where
  "idle_store = [(''s1'', idle_session)]"

text \<open>A store with a session last accessed at 0 and one last accessed at 100000.\<close>

definition two_sessions :: sessions where
  "two_sessions = [(''s1'', idle_session),
      (''s2'', idle_session\<lparr>sessionId := ''s2'', lastAccessed := 100000\<rparr>)]"

text \<open>Three calls of \<open>addMessage\<close>, two of them on the session \<open>s1\<close>.\<close>

definition three_calls :: "add_call list" where
  "three_calls = [(''s1'', ''id1'', 1, User, ''a''), (''s2'', ''id2'', 2, User, ''x''),
      (''s1'', ''id3'', 3, Assistant, ''b'')]"

text \<open>
  Identifiers and times for the chunks, and a document of five words with a double
  space inside and a line feed at the end.
\<close>

definition env0 :: chunk_env where
  "env0 = \<lparr>uuid = (\<lambda>k. ''id-'' @ show_nat k), clock = (\<lambda>k. 1000 + int k)\<rparr>"

definition five_words :: string where
  "five_words = ''a b  c d e'' @ [CHR 0x0A]"

text \<open>
  An environment whose language model was never initialised (no API key), so that
  every generation call fails.
\<close>

definition offline_env :: request_env where
  "offline_env =
     \<lparr>env_id_user = ''u-1'', env_id_assistant = ''a-1'',
      env_t_user = 10, env_t_summary = 11, env_t_plugins = 12, env_t_assistant = 30,
      env_t_response = 31, env_t_error = 32,
      env_owm = unauthorized, env_rnd = half, env_mathjs = precedence_eval,
      env_weaviate = three_hits, env_gemini = None,
      env_num_str = (\<lambda>q. show_nat (nat \<lfloor>q\<rfloor>))\<rparr>"

text \<open>The same environment with a model that answers \<open>12\<close> and an index without documents.\<close>

definition online_env :: request_env where
  "online_env = offline_env\<lparr>env_gemini := Some (\<lambda>prompt. Inr ''12''),
                            env_weaviate := (\<lambda>query limit. Inr [])\<rparr>"

section \<open>Plugin dispatch: two matching handlers\<close>

lemma dispatch_map_filter:
  "detectAndExecutePlugins plugins message =
     map (\<lambda>p. outcome_of p message) (filter (\<lambda>p. detectIntent p message) plugins)"
  by (induction plugins) (simp_all add: outcome_of_def)

text \<open>
  Claim C4. When exactly two registered handlers \<open>p\<close> and \<open>q\<close> accept the message, \<open>p\<close>
  registered before \<open>q\<close>, dispatch returns exactly two outcomes, the one of \<open>p\<close> and then
  the one of \<open>q\<close>. A handler whose \<open>execute\<close> throws contributes the single outcome with
  \<open>success = false\<close> and its error message; the other handler still runs and contributes
  what it returned.
\<close>

theorem dispatch_two_matches:
  assumes "detectIntent p message" and "detectIntent q message"
    and "list_all (\<lambda>x. \<not> detectIntent x message) (before @ between @ after)"
  shows "detectAndExecutePlugins (before @ p # between @ q # after) message
           = [outcome_of p message, outcome_of q message]
         \<and> (\<forall>err. execute p message = Inl err \<longrightarrow>
               outcome_of p message
                 = \<lparr>name = pname p, success = False, data = None,
                    error = Some (error_message err)\<rparr>)
         \<and> (\<forall>err. execute q message = Inl err \<longrightarrow>
               outcome_of q message
                 = \<lparr>name = pname q, success = False, data = None,
                    error = Some (error_message err)\<rparr>)
         \<and> (\<forall>r. execute p message = Inr r \<longrightarrow> outcome_of p message = r)
         \<and> (\<forall>r. execute q message = Inr r \<longrightarrow> outcome_of q message = r)"
proof -
  have none: "filter (\<lambda>x. detectIntent x message) before = []"
             "filter (\<lambda>x. detectIntent x message) between = []"
             "filter (\<lambda>x. detectIntent x message) after = []"
    using assms(3) by (simp_all add: list_all_iff filter_empty_conv)
  have "filter (\<lambda>x. detectIntent x message) (before @ p # between @ q # after) = [p, q]"
    using assms(1,2) none by simp
  then have "detectAndExecutePlugins (before @ p # between @ q # after) message
               = [outcome_of p message, outcome_of q message]"
    by (simp add: dispatch_map_filter)
  then show ?thesis by (simp add: outcome_of_def)
qed

lemma math_match_2_2_5: "math_match ''2 + 2 * 5'' = Some ''2 + 2 * 5''"
  by code_simp

lemma evaluate_reference_2_2_5:
  "evaluate precedence_eval t ''2 + 2 * 5''
     = Inr \<lparr>expression = ''2+2*5'', result = 12, m_timestamp = t\<rparr>"
  by code_simp

text \<open>
  The first handler throws, the second never applies, the third is the math handler:
  two outcomes, in registration order.
\<close>

theorem dispatch_two_matches_witness:
  "detectAndExecutePlugins [failing_plugin, silent_plugin, MathPlugin precedence_eval 7] ''2 + 2 * 5''
     = [\<lparr>name = ''weather'', success = False, data = None, error = Some ''service down''\<rparr>,
        \<lparr>name = ''math'', success = True,
         data = Some (MathPayload \<lparr>expression = ''2+2*5'', result = 12, m_timestamp = 7\<rparr>),
         error = None\<rparr>]"
proof -
  have p: "detectIntent failing_plugin ''2 + 2 * 5''" by (simp add: failing_plugin_def)
  have q: "detectIntent (MathPlugin precedence_eval 7) ''2 + 2 * 5''"
    by (simp add: MathPlugin_def math_match_2_2_5 del: math_match.simps)
  have r: "list_all (\<lambda>x. \<not> detectIntent x ''2 + 2 * 5'') ([] @ [silent_plugin] @ [])"
    by (simp add: silent_plugin_def)
  show ?thesis
    using dispatch_two_matches [OF p q r]
    by (simp add: outcome_of_def failing_plugin_def MathPlugin_def math_execute_def
          math_match_2_2_5 evaluate_reference_2_2_5 del: math_match.simps)
qed

section \<open>The math handler\<close>

lemma evaluate_unsafe:
  "\<not> isSafeExpression (filter (\<lambda>c. \<not> is_space c) e)
     \<Longrightarrow> evaluate mathjs now e = Inl (Error (''Failed to evaluate: '' @ e))"
  by (simp add: evaluate_def)

lemma evaluate_never_partial:
  "evaluate mathjs now e = Inl err \<Longrightarrow> err = Error (''Failed to evaluate: '' @ e)"
  by (auto simp: evaluate_def Let_def split: if_splits sum.splits js_value.splits)

lemma count_char_clean:
  "\<not> is_space c \<Longrightarrow> count_char c (filter (\<lambda>x. \<not> is_space x) e) = count_char c e"
proof -
  assume c: "\<not> is_space c"
  have "(\<lambda>x. \<not> is_space x \<and> x = c) = (\<lambda>x. x = c)" using c by auto
  then show ?thesis by (simp add: count_char_def)
qed

lemma safe_balanced:
  "isSafeExpression x \<Longrightarrow> count_char CHR ''('' x = count_char CHR '')'' x"
  by (simp add: isSafeExpression_def split: if_splits)

lemma paren_not_space: "\<not> is_space CHR ''(''" "\<not> is_space CHR '')''"
  by (simp_all add: is_space_def)

lemma unbalanced_unsafe:
  assumes "count_char CHR ''('' e \<noteq> count_char CHR '')'' e"
  shows "\<not> isSafeExpression (filter (\<lambda>c. \<not> is_space c) e)"
proof
  assume "isSafeExpression (filter (\<lambda>c. \<not> is_space c) e)"
  from safe_balanced [OF this] show False
    using assms by (simp add: count_char_clean paren_not_space)
qed

lemma clean_10_0: "filter (\<lambda>c. \<not> is_space c) ''10 / 0'' = ''10/0''"
  by (simp add: is_space_def)

lemma unsafe_10_0: "\<not> isSafeExpression ''10/0''"
  by (simp add: isSafeExpression_def)

lemma math_match_10_0: "math_match ''10 / 0'' = Some ''10 / 0''"
  by code_simp

text \<open>
  Claim C5. With an evaluator that gives \<open>2+2*5\<close> the value 12 (standard precedence), the
  handler's \<open>evaluate\<close> applied to \<open>2 + 2 * 5\<close> returns the result 12. Applied to \<open>10 / 0\<close>,
  and to every expression whose counts of opening and closing parentheses differ, it
  ends in the caught error \<open>Failed to evaluate: ...\<close>, whatever the evaluator would do:
  no number, no partial result, no infinity; \<open>execute\<close> turns that error into a failure
  outcome.
\<close>

theorem math_evaluate_contract:
  "(mathjs ''2+2*5'' = Inr (Number 12) \<longrightarrow>
      evaluate mathjs now ''2 + 2 * 5''
        = Inr \<lparr>expression = ''2+2*5'', result = 12, m_timestamp = now\<rparr>)
   \<and> evaluate mathjs now ''10 / 0'' = Inl (Error ''Failed to evaluate: 10 / 0'')
   \<and> math_execute mathjs now ''10 / 0''
        = \<lparr>name = ''math'', success = False, data = None,
           error = Some ''Failed to evaluate: 10 / 0''\<rparr>
   \<and> (\<forall>e. count_char CHR ''('' e \<noteq> count_char CHR '')'' e \<longrightarrow>
          evaluate mathjs now e = Inl (Error (''Failed to evaluate: '' @ e)))"
proof (intro conjI allI impI)
  assume "mathjs ''2+2*5'' = Inr (Number 12)"
  moreover have "filter (\<lambda>c. \<not> is_space c) ''2 + 2 * 5'' = ''2+2*5''"
    by (simp add: is_space_def)
  moreover have "isSafeExpression ''2+2*5''"
    by (simp add: isSafeExpression_def safe_char_def is_digit_def is_space_def count_char_def)
  ultimately show "evaluate mathjs now ''2 + 2 * 5''
        = Inr \<lparr>expression = ''2+2*5'', result = 12, m_timestamp = now\<rparr>"
    by (simp add: evaluate_def)
next
  have "\<not> isSafeExpression (filter (\<lambda>c. \<not> is_space c) ''10 / 0'')"
    unfolding clean_10_0 by (rule unsafe_10_0)
  from evaluate_unsafe [OF this]
  show ten: "evaluate mathjs now ''10 / 0'' = Inl (Error ''Failed to evaluate: 10 / 0'')"
    by simp
  show "math_execute mathjs now ''10 / 0''
        = \<lparr>name = ''math'', success = False, data = None,
           error = Some ''Failed to evaluate: 10 / 0''\<rparr>"
    by (simp add: math_execute_def math_match_10_0 ten del: math_match.simps)
next
  fix e assume "count_char CHR ''('' e \<noteq> count_char CHR '')'' e"
  then show "evaluate mathjs now e = Inl (Error (''Failed to evaluate: '' @ e))"
    by (rule evaluate_unsafe [OF unbalanced_unsafe])
qed

lemma reference_2_2_5: "precedence_eval ''2+2*5'' = Inr (Number 12)"
  by code_simp

text \<open>The reference evaluator meets the hypothesis; \<open>(1 + 2\<close> is unbalanced.\<close>

theorem math_evaluate_contract_witness:
  "precedence_eval ''2+2*5'' = Inr (Number 12)
   \<and> evaluate precedence_eval 7 ''2 + 2 * 5''
        = Inr \<lparr>expression = ''2+2*5'', result = 12, m_timestamp = 7\<rparr>
   \<and> count_char CHR ''('' ''(1 + 2'' \<noteq> count_char CHR '')'' ''(1 + 2''
   \<and> evaluate precedence_eval 7 ''(1 + 2'' = Inl (Error ''Failed to evaluate: (1 + 2'')"
proof -
  have c: "count_char CHR ''('' ''(1 + 2'' \<noteq> count_char CHR '')'' ''(1 + 2''"
    by (simp add: count_char_def)
  show ?thesis
    using math_evaluate_contract [of precedence_eval 7] reference_2_2_5 c by simp
qed

text \<open>
  Claim C9. The expression \<open>8 / 0.5\<close> has a divisor that is not zero, uses only characters
  of the safe class and has balanced parentheses, but its text without white space
  contains \<open>/0\<close>: \<open>evaluate\<close> reports the failure \<open>Failed to evaluate: 8 / 0.5\<close> and never
  asks the evaluator for the quotient.
\<close>

theorem math_rejects_decimal_divisor:
  "evaluate mathjs now ''8 / 0.5'' = Inl (Error ''Failed to evaluate: 8 / 0.5'')
   \<and> list_all safe_char ''8/0.5''
   \<and> count_char CHR ''('' ''8/0.5'' = count_char CHR '')'' ''8/0.5''
   \<and> str_includes ''8/0.5'' ''/0''"
proof -
  have clean: "filter (\<lambda>c. \<not> is_space c) ''8 / 0.5'' = ''8/0.5''"
    by (simp add: is_space_def)
  have "\<not> isSafeExpression ''8/0.5''"
    by (simp add: isSafeExpression_def)
  then have "\<not> isSafeExpression (filter (\<lambda>c. \<not> is_space c) ''8 / 0.5'')"
    unfolding clean .
  from evaluate_unsafe [OF this]
  have "evaluate mathjs now ''8 / 0.5'' = Inl (Error ''Failed to evaluate: 8 / 0.5'')"
    by simp
  moreover have "list_all safe_char ''8/0.5''"
    by (simp add: safe_char_def is_digit_def is_space_def)
  ultimately show ?thesis by (simp add: count_char_def)
qed

section \<open>The weather handler\<close>

lemma getWeather_returns:
  "getWeather apiKey owm rnd now city
     = Inr (if apiKey = [] then getMockWeather rnd now city
            else (case owm city of
                    HttpOk (Inr body) \<Rightarrow>
                      \<lparr>temperature = round (main_temp body), condition = weather0_main body,
                       location = body_name body, w_timestamp = now,
                       humidity = main_humidity body, windSpeed = wind_speed body\<rparr>
                  | _ \<Rightarrow> getMockWeather rnd now city))"
  by (simp add: getWeather_def split: owm_reply.splits sum.splits)

lemma getWeather_fallback:
  "owm_failed (owm city) \<Longrightarrow> getWeather apiKey owm rnd now city = Inr (getMockWeather rnd now city)"
  by (cases "owm city" rule: owm_failed.cases) (simp_all add: getWeather_returns)

text \<open>
  Claim C10. Whenever the weather pattern matches a message, with capture \<open>cap\<close> and city
  \<open>trim cap\<close>, \<open>WeatherPlugin.execute\<close> returns an outcome with \<open>success = true\<close> that carries
  weather data, for every API key, every behaviour of the OpenWeather service and every
  reading of the random source: \<open>getWeather\<close> never rejects, and on each failure of the
  service (rejected request, response that is not ok, body that cannot be read) its
  result is the mock data. The promise of \<open>execute\<close> is fulfilled, never rejected.
\<close>

theorem weather_execute_succeeds:
  assumes "weather_match message = Some cap"
  shows "\<exists>w. weather_execute apiKey owm rnd now message
               = \<lparr>name = ''weather'', success = True, data = Some (WeatherPayload w), error = None\<rparr>
             \<and> execute (WeatherPlugin apiKey owm rnd now) message
               = Inr \<lparr>name = ''weather'', success = True, data = Some (WeatherPayload w),
                      error = None\<rparr>
             \<and> getWeather apiKey owm rnd now (trim cap) = Inr w
             \<and> (owm_failed (owm (trim cap)) \<longrightarrow> w = getMockWeather rnd now (trim cap))"
proof -
  obtain w where w: "getWeather apiKey owm rnd now (trim cap) = Inr w"
    by (simp add: getWeather_returns)
  have "owm_failed (owm (trim cap)) \<longrightarrow> w = getMockWeather rnd now (trim cap)"
    using w getWeather_fallback [of owm "trim cap" apiKey rnd now] by auto
  moreover have "weather_execute apiKey owm rnd now message
      = \<lparr>name = ''weather'', success = True, data = Some (WeatherPayload w), error = None\<rparr>"
    using assms w by (simp add: weather_execute_def)
  ultimately show ?thesis
    using w by (simp add: WeatherPlugin_def)
qed

lemma weather_match_paris: "weather_match ''weather in Paris'' = Some ''Paris''"
  by code_simp

lemma trim_paris: "trim ''Paris'' = ''Paris''"
  by (simp add: trim_def is_space_def)

lemma mock_paris:
  "getMockWeather half 9 ''Paris''
     = \<lparr>temperature = 25, condition = ''Rainy'', location = ''Paris'', w_timestamp = 9,
        humidity = Some 60, windSpeed = Some 15\<rparr>"
  by (simp add: getMockWeather_def half_def Let_def)

text \<open>A key is configured and the service answers 401: the outcome carries the mock data.\<close>

theorem weather_execute_succeeds_witness:
  "weather_match ''weather in Paris'' = Some ''Paris''
   \<and> weather_execute ''key'' unauthorized half 9 ''weather in Paris''
       = \<lparr>name = ''weather'', success = True,
          data = Some (WeatherPayload
                   \<lparr>temperature = 25, condition = ''Rainy'', location = ''Paris'',
                    w_timestamp = 9, humidity = Some 60, windSpeed = Some 15\<rparr>),
          error = None\<rparr>"
proof -
  have f: "owm_failed (unauthorized (trim ''Paris''))" by (simp add: unauthorized_def)
  from weather_execute_succeeds [OF weather_match_paris, of "''key''" unauthorized half 9]
  obtain w where
    "weather_execute ''key'' unauthorized half 9 ''weather in Paris''
       = \<lparr>name = ''weather'', success = True, data = Some (WeatherPayload w), error = None\<rparr>"
    and "owm_failed (unauthorized (trim ''Paris'')) \<longrightarrow> w = getMockWeather half 9 (trim ''Paris'')"
    by blast
  with f show ?thesis
    by (simp add: weather_match_paris trim_paris mock_paris del: weather_match.simps)
qed

section \<open>Retrieval\<close>

subsection \<open>Rounding to a double is monotone\<close>












subsection \<open>Evaluating doubles\<close>

lemma exponent_up_numeral:
  "exponent_up (numeral n) a = (if a < 2 then 0 else Suc (exponent_up (pred_numeral n) (a / 2)))"
  by (simp add: numeral_eq_Suc)

lemma exponent_down_numeral:
  "exponent_down (numeral n) a
     = (if 1 \<le> 2 * a then 1 else Suc (exponent_down (pred_numeral n) (2 * a)))"
  by (simp add: numeral_eq_Suc)

lemma floor_rat_numeral: "\<lfloor>(numeral a :: rat) / numeral b\<rfloor> = numeral a div numeral b"
  using floor_divide_of_int_eq [of "numeral a" "numeral b", where ?'a = rat] by simp

lemma floor_rat_one: "\<lfloor>(1 :: rat) / numeral b\<rfloor> = 1 div numeral b"
  using floor_divide_of_int_eq [of 1 "numeral b", where ?'a = rat] by simp

lemmas double_eval = to_double_def nearest_def binade_def round_even_def Let_def
  exponent_up_numeral exponent_down_numeral power_int_minus_divide
  floor_rat_numeral floor_rat_one

lemmas number_eval = double_def num_sub_def num_ge_def truthy_def num_or_def double_eval

subsection \<open>Scores and distances\<close>


lemma to_double_not_NaN: "to_double r \<noteq> NaN"
  by (simp add: to_double_def Let_def)

lemma double_not_NaN: "a \<noteq> NaN \<Longrightarrow> double a \<noteq> NaN"
  by (cases a) (simp_all add: double_def to_double_not_NaN)









lemma search_some:
  "search cfg client query \<lparr>maxSearchResults = Some k, similarityThreshold = Some t\<rparr>
     = (case client query k of
          Inl err \<Rightarrow> []
        | Inr hits \<Rightarrow> filter (\<lambda>r. num_ge (score r) t) (map to_result hits))"
  by (simp add: search_def weaviate_search_def split: sum.splits)

subsection \<open>The contract of \<open>search\<close>\<close>







text \<open>
  The subtraction rounds as the doubles do: a hit at the distance 0.8 is scored
  0.19999999999999996, which is below the threshold 0.2, so it is not returned.
\<close>

theorem rounded_score_below_threshold:
  "score_of (Some (Finite (4 / 5))) = Finite (900719925474099 / 4503599627370496)
   \<and> double (Finite (1 / 5)) = Finite (3602879701896397 / 18014398509481984)
   \<and> search default_config far_match ''cats''
        \<lparr>maxSearchResults = Some 3, similarityThreshold = Some (Finite (1 / 5))\<rparr> = []"
  by (simp add: search_some far_match_def to_result_def gamma_hit_def score_of_def number_eval)

section \<open>Session memory: the bound on the message list\<close>

lemma slice_from_neg: "0 < n \<Longrightarrow> slice_from (- int n) xs = last_n n xs"
  by (simp add: slice_from_def last_n_def Let_def nat_diff_distrib' max_def)

lemma slice_from_zero: "slice_from (- int 0) xs = xs"
  by (simp add: slice_from_def)

lemma last_n_short: "length xs \<le> n \<Longrightarrow> last_n n xs = xs"
  by (simp add: last_n_def)

lemma length_last_n: "length (last_n n xs) = min n (length xs)"
  by (simp add: last_n_def)

lemma last_n_snoc: "0 < n \<Longrightarrow> last_n n (last_n n xs @ [x]) = last_n n (xs @ [x])"
proof (cases "length xs < n")
  case True
  then show ?thesis by (simp add: last_n_def)
next
  case False
  assume "0 < n"
  with False have "Suc (length xs) - n = Suc (length xs - n)" by arith
  with False show ?thesis by (simp add: last_n_def)
qed

text \<open>What one call does to the session it addresses, and that it leaves the others alone.\<close>

lemma addMessage_lookup:
  "map_of (addMessage cfgMax newId now ss sid r c) k
     = (if k = sid
        then Some (let session = (case map_of ss sid of
                                    Some s \<Rightarrow> s
                                  | None \<Rightarrow> \<lparr>sessionId = sid, messages = [], createdAt = now,
                                             lastAccessed = now, maxMessages = cfgMax\<rparr>);
                       ms = messages session @ [\<lparr>msg_id = newId, role = r, content = c,
                                                  timestamp = now\<rparr>]
                   in session\<lparr>messages := (if length ms > maxMessages session
                                               then slice_from (- int (maxMessages session)) ms
                                               else ms),
                               lastAccessed := now\<rparr>)
        else map_of ss k)"
  by (simp add: addMessage_def Let_def update_conv')

lemma addMessages_snoc:
  "addMessages cfgMax ss (calls @ [(sid, newId, now, r, c)])
     = addMessage cfgMax newId now (addMessages cfgMax ss calls) sid r c"
  by (induction calls arbitrary: ss) auto

lemma appended_snoc:
  "appended sid (calls @ [(sid', newId, now, r, c)])
     = appended sid calls
       @ (if sid' = sid then [\<lparr>msg_id = newId, role = r, content = c, timestamp = now\<rparr>] else [])"
  by (induction calls) auto

lemma bounded_over:
  assumes "0 < n" and "n < Suc (length (last_n n xs))"
  shows "slice_from (- int n) (last_n n xs @ [x]) = last_n n (xs @ [x])"
  using assms by (simp add: slice_from_neg last_n_snoc)

lemma bounded_under:
  assumes "0 < n" and "\<not> n < Suc (length (last_n n xs))"
  shows "last_n n xs @ [x] = last_n n (xs @ [x])"
proof -
  from assms(2) have "last_n n (last_n n xs @ [x]) = last_n n xs @ [x]"
    by (intro last_n_short) simp
  with assms(1) show ?thesis by (simp add: last_n_snoc)
qed

lemma addMessages_sessions:
  assumes "0 < cfgMax"
  shows "map_option (\<lambda>s. (messages s, maxMessages s)) (map_of (addMessages cfgMax [] calls) sid)
           = (if appended sid calls = [] then None
              else Some (last_n cfgMax (appended sid calls), cfgMax))"
proof (induction calls arbitrary: sid rule: rev_induct)
  case Nil
  then show ?case by simp
next
  case (snoc call calls)
  obtain sid' newId now r c where call: "call = (sid', newId, now, r, c)"
    by (cases call) auto
  show ?case
  proof (cases "sid' = sid")
    case False
    then show ?thesis
      using snoc [of sid] by (simp add: call addMessages_snoc appended_snoc addMessage_lookup)
  next
    case True
    show ?thesis
    proof (cases "map_of (addMessages cfgMax [] calls) sid")
      case None
      with snoc [of sid] have "appended sid calls = []" by (simp split: if_splits)
      with None True assms show ?thesis
        by (simp add: call addMessages_snoc appended_snoc addMessage_lookup last_n_def
              slice_from_def)
    next
      case (Some s)
      with snoc [of sid] have s: "messages s = last_n cfgMax (appended sid calls)"
        "maxMessages s = cfgMax"
        by (simp_all split: if_splits)
      show ?thesis
        using Some True s
        by (simp add: call addMessages_snoc appended_snoc addMessage_lookup Let_def
              bounded_over [OF assms] bounded_under [OF assms])
    qed
  qed
qed

text \<open>
  When the configured maximum is at least 1: after any sequence of \<open>addMessage\<close> calls
  on a fresh store, a session holds exactly the last \<open>min (total, maximum)\<close> messages
  appended to it, in the order they were appended.
\<close>

theorem memory_bounded_when_max_positive:
  assumes "0 < cfgMax"
  shows "map_option messages (map_of (addMessages cfgMax [] calls) sid)
           = (if appended sid calls = [] then None
              else Some (last_n cfgMax (appended sid calls)))
         \<and> length (last_n cfgMax (appended sid calls)) = min (length (appended sid calls)) cfgMax
         \<and> last_n cfgMax (appended sid calls)
             = drop (length (appended sid calls) - cfgMax) (appended sid calls)"
proof -
  have "map_option messages (map_of (addMessages cfgMax [] calls) sid)
        = map_option fst (map_option (\<lambda>s. (messages s, maxMessages s))
            (map_of (addMessages cfgMax [] calls) sid))"
    by (simp add: option.map_comp comp_def)
  also have "\<dots> = (if appended sid calls = [] then None
                    else Some (last_n cfgMax (appended sid calls)))"
    by (simp add: addMessages_sessions [OF assms])
  finally show ?thesis
    by (simp add: length_last_n last_n_def min.commute)
qed

text \<open>Maximum 1, two messages appended to \<open>s1\<close>: the second is kept.\<close>

theorem memory_bounded_when_max_positive_witness:
  "map_option messages (map_of (addMessages 1 [] three_calls) ''s1'')
     = Some [\<lparr>msg_id = ''id3'', role = Assistant, content = ''b'', timestamp = 3\<rparr>]"
proof -
  have a: "appended ''s1'' three_calls
        = [\<lparr>msg_id = ''id1'', role = User, content = ''a'', timestamp = 1\<rparr>,
           \<lparr>msg_id = ''id3'', role = Assistant, content = ''b'', timestamp = 3\<rparr>]"
    by (simp add: three_calls_def)
  show ?thesis
    using memory_bounded_when_max_positive [of 1 three_calls "''s1''"]
    by (simp add: a last_n_def)
qed

text \<open>
  Claim C2 at the configured maximum 0: \<open>slice(-0)\<close> is \<open>slice(0)\<close>, the whole array, so
  nothing is dropped. After two messages appended to \<open>s1\<close> the session, whose maximum
  is 0, holds both.
\<close>

theorem memory_unbounded_when_max_zero:
  "map_option (\<lambda>s. (maxMessages s, length (messages s)))
     (map_of (addMessages 0 [] three_calls) ''s1'') = Some (0, 2)
   \<and> map_option messages (map_of (addMessages 0 [] three_calls) ''s1'')
       = Some (appended ''s1'' three_calls)"
  by (simp add: three_calls_def addMessage_def slice_from_def Let_def)

section \<open>Session memory: the summary\<close>

lemma getMemory_store: "snd (getMemory now ss sid) = touched now sid ss"
  by (simp add: getMemory_def touched_def split: option.splits)

lemma getSummary_store: "snd (getSummary now ss sid mc) = touched now sid ss"
proof -
  obtain session ss' where g: "getMemory now ss sid = (session, ss')"
    by (cases "getMemory now ss sid")
  then have "ss' = touched now sid ss"
    using getMemory_store [of now ss sid] by simp
  with g show ?thesis
    by (simp add: getSummary_def Let_def split: option.splits)
qed

lemma getFormattedSummary_store: "snd (getFormattedSummary now ss sid mc) = touched now sid ss"
proof -
  let ?count = "Some (case mc of None \<Rightarrow> 2 | Some k \<Rightarrow> k)"
  obtain summary ss' where g: "getSummary now ss sid ?count = (summary, ss')"
    by (cases "getSummary now ss sid ?count")
  then have "ss' = touched now sid ss"
    using getSummary_store [of now ss sid ?count] by simp
  with g show ?thesis
    by (simp add: getFormattedSummary_def Let_def)
qed

lemma touched_keys: "map fst (touched now sid ss) = map fst ss"
proof (cases "map_of ss sid")
  case None
  then show ?thesis by (simp add: touched_def)
next
  case (Some s)
  then have "sid \<in> fst ` set ss" by (force dest: map_of_SomeD)
  then show ?thesis using Some by (simp add: touched_def update_keys)
qed

lemma touched_lookup:
  "map_of (touched now sid ss) k
     = (if k = sid then map_option (\<lambda>s. s\<lparr>lastAccessed := now\<rparr>) (map_of ss sid)
        else map_of ss k)"
  by (cases "map_of ss sid") (simp_all add: touched_def update_conv')

text \<open>The operations of the store keep its keys distinct.\<close>

lemma wf_sessions_preserved:
  assumes "wf_sessions ss"
  shows "wf_sessions (addMessage cfgMax newId now ss sid r c)"
    and "wf_sessions (snd (getMemory now ss sid))"
    and "wf_sessions (snd (getSummary now ss sid mc))"
    and "wf_sessions (clearMemory ss sid)"
proof -
  show "wf_sessions (addMessage cfgMax newId now ss sid r c)"
    using assms by (simp add: addMessage_def wf_sessions_def Let_def distinct_update)
  show "wf_sessions (snd (getMemory now ss sid))"
    using assms by (simp add: getMemory_store wf_sessions_def touched_keys)
  show "wf_sessions (snd (getSummary now ss sid mc))"
    using assms by (simp add: getSummary_store wf_sessions_def touched_keys)
  show "wf_sessions (clearMemory ss sid)"
    using assms by (simp add: clearMemory_def wf_sessions_def distinct_delete)
qed

text \<open>
  Claim C7, as amended. Producing a summary (\<open>getSummary\<close>, \<open>getFormattedSummary\<close>) leaves
  the store as it was except for one field: when the session exists, its
  \<open>lastAccessed\<close> becomes the current time, because the summary is read through
  \<open>getMemory\<close>. No session is added, removed or moved; the message list, the creation
  time, the identifier and the maximum of the session, and every other session, are
  unchanged.
\<close>

theorem summary_touches_only_lastAccessed:
  "snd (getSummary now ss sid mc) = touched now sid ss
   \<and> snd (getFormattedSummary now ss sid mc) = touched now sid ss
   \<and> map fst (touched now sid ss) = map fst ss
   \<and> map_of (touched now sid ss) k
       = (if k = sid then map_option (\<lambda>s. s\<lparr>lastAccessed := now\<rparr>) (map_of ss sid)
          else map_of ss k)"
  using getSummary_store getFormattedSummary_store touched_keys touched_lookup by simp

text \<open>
  Claim C7 as stated fails: a summary of a session last accessed at time 0, taken at
  time 5000, changes the store, and the session's \<open>lastAccessed\<close> is 5000 afterwards.
\<close>

theorem summary_changes_lastAccessed:
  "snd (getSummary 5000 idle_store ''s1'' None) \<noteq> idle_store
   \<and> map_option lastAccessed (map_of idle_store ''s1'') = Some 0
   \<and> map_option lastAccessed (map_of (snd (getSummary 5000 idle_store ''s1'' None)) ''s1'')
       = Some 5000"
  by (simp add: getSummary_def getMemory_def idle_store_def idle_session_def Let_def)

text \<open>The same summary: only \<open>lastAccessed\<close> of the session differs afterwards.\<close>

theorem summary_touches_only_lastAccessed_witness:
  "snd (getSummary 5000 idle_store ''s1'' None) = [(''s1'', idle_session\<lparr>lastAccessed := 5000\<rparr>)]
   \<and> snd (getFormattedSummary 5000 idle_store ''s1'' None)
       = [(''s1'', idle_session\<lparr>lastAccessed := 5000\<rparr>)]"
  using summary_touches_only_lastAccessed [of 5000 idle_store "''s1''" None]
  by (simp add: touched_def idle_store_def)

section \<open>Session memory: eviction\<close>

lemma foldl_delete:
  "foldl (\<lambda>m sid. AList.delete sid m) ss ks = filter (\<lambda>(k, s). k \<notin> set ks) ss"
proof (induction ks arbitrary: ss)
  case Nil
  then show ?case by simp
next
  case (Cons k ks)
  have "filter (\<lambda>(k', s). k' \<notin> set ks) (AList.delete k ss)
          = filter (\<lambda>(k', s). k' \<notin> set (k # ks)) ss"
    by (induction ss) auto
  with Cons show ?case by simp
qed

lemma stale_keys:
  assumes "distinct (map fst ss)" and "(k, s) \<in> set ss"
  shows "k \<in> set (map fst (filter (\<lambda>(sid, session). P session) ss)) \<longleftrightarrow> P s"
proof
  assume "k \<in> set (map fst (filter (\<lambda>(sid, session). P session) ss))"
  then obtain s' where s': "(k, s') \<in> set ss" "P s'" by auto
  with assms have "s' = s" by (meson eq_key_imp_eq_value)
  with s' show "P s" by simp
next
  assume "P s"
  with assms(2) show "k \<in> set (map fst (filter (\<lambda>(sid, session). P session) ss))"
    by force
qed

lemma cleanup_remaining:
  assumes "wf_sessions ss"
  shows "remaining (cleanupOldSessions now ss t)
           = filter (\<lambda>(sid, session). \<not> lastAccessed session < cutoff_of now t) ss"
proof -
  have "filter (\<lambda>(k, s). k \<notin> set (map fst (filter (\<lambda>(sid, session).
            lastAccessed session < cutoff_of now t) ss))) ss
        = filter (\<lambda>(sid, session). \<not> lastAccessed session < cutoff_of now t) ss"
  proof (rule filter_cong [OF refl])
    fix x assume x: "x \<in> set ss"
    obtain k s where ks: "x = (k, s)" by (cases x)
    from stale_keys [OF assms [unfolded wf_sessions_def] x [unfolded ks],
        of "\<lambda>session. lastAccessed session < cutoff_of now t"]
    show "(case x of (k, s) \<Rightarrow> k \<notin> set (map fst (filter (\<lambda>(sid, session).
              lastAccessed session < cutoff_of now t) ss)))
          = (case x of (sid, session) \<Rightarrow> \<not> lastAccessed session < cutoff_of now t)"
      by (simp add: ks)
  qed
  then show ?thesis
    by (simp add: cleanupOldSessions_def Let_def foldl_delete)
qed

lemma map_of_filter_distinct:
  "distinct (map fst xs) \<Longrightarrow>
   map_of (filter (\<lambda>(k, v). P v) xs) k
     = (case map_of xs k of None \<Rightarrow> None | Some v \<Rightarrow> if P v then Some v else None)"
proof (induction xs)
  case Nil
  then show ?case by simp
next
  case (Cons x xs)
  obtain k' v' where x: "x = (k', v')" by (cases x)
  show ?case
  proof (cases "k' = k")
    case True
    with Cons.prems x have "k \<notin> fst ` set xs" by auto
    then have "map_of (filter (\<lambda>(k, v). P v) xs) k = None"
      by (force simp: map_of_eq_None_iff)
    with True x show ?thesis by simp
  next
    case False
    with Cons x show ?thesis by simp
  qed
qed

lemma cleanup_console:
  "console (cleanupOldSessions now ss t)
     = (let n = length (filter (\<lambda>(sid, session). lastAccessed session < cutoff_of now t) ss)
        in if n > 0 then [''Cleaned up '' @ show_nat n @ '' old sessions''] else [])"
  by (simp add: cleanupOldSessions_def Let_def)

text \<open>
  Claim C8, as amended. On a store with distinct keys, \<open>cleanupOldSessions\<close> removes
  exactly the sessions whose \<open>lastAccessed\<close> is strictly less than the cutoff
  \<open>now - maxAgeMinutes * 60 * 1000\<close> and keeps every other session, unchanged and in
  order. The promise resolves to no value; the number of removed sessions is written
  to the console, and only when it is positive.
\<close>

theorem cleanup_removes_exactly_stale:
  assumes "wf_sessions ss"
  shows "remaining (cleanupOldSessions now ss t)
           = filter (\<lambda>(sid, session). \<not> lastAccessed session < cutoff_of now t) ss
         \<and> map_of (remaining (cleanupOldSessions now ss t)) sid
           = (case map_of ss sid of
                None \<Rightarrow> None
              | Some session \<Rightarrow>
                  if lastAccessed session < cutoff_of now t then None else Some session)
         \<and> wf_sessions (remaining (cleanupOldSessions now ss t))
         \<and> resolved (cleanupOldSessions now ss t) = ()
         \<and> console (cleanupOldSessions now ss t)
           = (let n = length ss - length (remaining (cleanupOldSessions now ss t))
              in if n > 0 then [''Cleaned up '' @ show_nat n @ '' old sessions''] else [])"
proof -
  let ?stale = "\<lambda>(sid, session). lastAccessed session < cutoff_of now t"
  have r: "remaining (cleanupOldSessions now ss t) = filter (\<lambda>x. \<not> ?stale x) ss"
    using cleanup_remaining [OF assms, of now t] by (simp add: case_prod_unfold)
  have l: "map_of (filter (\<lambda>(k, v). \<not> lastAccessed v < cutoff_of now t) ss) sid
        = (case map_of ss sid of None \<Rightarrow> None
           | Some v \<Rightarrow> if \<not> lastAccessed v < cutoff_of now t then Some v else None)"
    using assms unfolding wf_sessions_def by (rule map_of_filter_distinct)
  have n: "length ss - length (filter (\<lambda>x. \<not> ?stale x) ss) = length (filter ?stale ss)"
    using sum_length_filter_compl [of ?stale ss] by simp
  have w: "wf_sessions (filter (\<lambda>x. \<not> ?stale x) ss)"
    using assms by (simp add: wf_sessions_def distinct_map_filter)
  show ?thesis
    unfolding r using l n w cleanup_console [of now ss t]
    by (auto simp: case_prod_unfold Let_def split: option.splits)
qed

text \<open>Cutoff 60000: the session last accessed at 0 goes, the one at 100000 stays.\<close>

theorem cleanup_removes_exactly_stale_witness:
  "wf_sessions two_sessions
   \<and> remaining (cleanupOldSessions 120000 two_sessions (Some 1))
       = [(''s2'', idle_session\<lparr>sessionId := ''s2'', lastAccessed := 100000\<rparr>)]"
proof -
  have w: "wf_sessions two_sessions" by (simp add: wf_sessions_def two_sessions_def)
  show ?thesis
    using cleanup_removes_exactly_stale [OF w, of 120000 "Some 1"] w
    by (simp add: two_sessions_def cutoff_of_def idle_session_def)
qed

text \<open>
  Claim C8 as stated fails in its last part: a call that evicts one session and a call
  that evicts none resolve to the same value, so the value is not the count.
\<close>

theorem cleanup_resolves_to_no_count:
  "length idle_store - length (remaining (cleanupOldSessions 120000 idle_store (Some 1))) = 1
   \<and> length two_sessions - length (remaining (cleanupOldSessions 50000 two_sessions (Some 1))) = 0
   \<and> resolved (cleanupOldSessions 120000 idle_store (Some 1))
       = resolved (cleanupOldSessions 50000 two_sessions (Some 1))"
  by (simp add: cleanupOldSessions_def cutoff_of_def idle_store_def two_sessions_def
        idle_session_def Let_def)

section \<open>Streaming ingestion\<close>

lemma windows_Nil [simp]: "windows n [] = []"
  by (simp add: windows.simps)

lemma windows_step:
  "0 < n \<Longrightarrow> xs \<noteq> [] \<Longrightarrow> windows n xs = take n xs # windows n (drop n xs)"
  by (subst windows.simps) simp

lemma windows_short: "0 < n \<Longrightarrow> xs \<noteq> [] \<Longrightarrow> length xs \<le> n \<Longrightarrow> windows n xs = [xs]"
  by (simp add: windows_step)

lemma windows_full: "0 < n \<Longrightarrow> length xs = n \<Longrightarrow> windows n (xs @ ys) = xs # windows n ys"
  by (cases "xs = []") (simp_all add: windows_step)

lemma slice_window:
  "slice start (min (start + n) (length ws)) ws = take n (drop start ws)"
  by (simp add: slice_def min_def)

lemma chunk_loop_result:
  assumes "0 < chunkSize" and "0 < batchSize"
  shows "length batch < batchSize \<Longrightarrow>
    chunk_loop env file chunkSize batchSize ws start batch k yielded
      = Some (yielded @ windows batchSize
                (batch @ mk_chunks env file k (chunk_contents chunkSize (drop start ws))))"
proof (induction "length ws - start" arbitrary: start batch k yielded rule: less_induct)
  case less
  show ?case
  proof (cases "start < length ws")
    case False
    then have "chunk_loop env file chunkSize batchSize ws start batch k yielded
                 = Some (if length batch > 0 then yielded @ [batch] else yielded)"
      by (subst chunk_loop.simps) simp
    moreover have "windows batchSize batch = (if length batch > 0 then [batch] else [])"
      using less.prems assms by (simp add: windows_short)
    ultimately show ?thesis using False by (simp add: chunk_contents_def)
  next
    case True
    let ?c = "window_content (take chunkSize (drop start ws))"
    let ?rest = "chunk_contents chunkSize (drop (start + chunkSize) ws)"
    have w: "windows chunkSize (drop start ws)
               = take chunkSize (drop start ws) # windows chunkSize (drop (start + chunkSize) ws)"
      using True assms by (simp add: windows_step add.commute)
    have m: "length ws - (start + chunkSize) < length ws - start"
      using True assms by simp
    show ?thesis
    proof (cases "?c = []")
      case empty: True
      have "chunk_loop env file chunkSize batchSize ws start batch k yielded
              = chunk_loop env file chunkSize batchSize ws (start + chunkSize) batch k yielded"
        using True empty less.prems
        by (subst chunk_loop.simps) (simp add: slice_window window_content_def Let_def)
      also have "\<dots> = Some (yielded @ windows batchSize (batch @ mk_chunks env file k ?rest))"
        using less.hyps [OF m less.prems] .
      finally show ?thesis using empty by (simp add: chunk_contents_def w)
    next
      case nonempty: False
      let ?chunk = "\<lparr>chunk_id = uuid env k, chunk_content = ?c, chunk_source = file,
          metadata = \<lparr>fileName = file, chunkIndex = k, processedAt = clock env k\<rparr>\<rparr>"
      have cc: "chunk_contents chunkSize (drop start ws) = ?c # ?rest"
        using nonempty by (simp add: chunk_contents_def w)
      show ?thesis
      proof (cases "length (batch @ [?chunk]) = batchSize")
        case full: True
        have "chunk_loop env file chunkSize batchSize ws start batch k yielded
                = chunk_loop env file chunkSize batchSize ws (start + chunkSize) [] (k + 1)
                    (yielded @ [batch @ [?chunk]])"
          using True nonempty full
          by (subst chunk_loop.simps) (simp add: slice_window window_content_def Let_def)
        also have "\<dots> = Some ((yielded @ [batch @ [?chunk]])
                       @ windows batchSize ([] @ mk_chunks env file (k + 1) ?rest))"
          using less.hyps [OF m, of "[]"] assms by simp
        finally show ?thesis
          using full windows_full [of batchSize "batch @ [?chunk]"] assms by (simp add: cc)
      next
        case partial: False
        then have lt: "length (batch @ [?chunk]) < batchSize" using less.prems by simp
        have "chunk_loop env file chunkSize batchSize ws start batch k yielded
                = chunk_loop env file chunkSize batchSize ws (start + chunkSize) (batch @ [?chunk])
                    (k + 1) yielded"
          using True nonempty partial
          by (subst chunk_loop.simps) (simp add: slice_window window_content_def Let_def)
        also have "\<dots> = Some (yielded @ windows batchSize
                       ((batch @ [?chunk]) @ mk_chunks env file (k + 1) ?rest))"
          using less.hyps [OF m lt] .
        finally show ?thesis by (simp add: cc)
      qed
    qed
  qed
qed

lemma ceil_div_0: "0 < n \<Longrightarrow> ceil_div 0 n = 0"
  by (simp add: ceil_div_def)

lemma ceil_div_pos: "0 < n \<Longrightarrow> 0 < a \<Longrightarrow> ceil_div a n = Suc ((a - 1) div n)"
proof -
  assume n: "0 < n" and a: "0 < a"
  have "a + n - 1 = (a - 1) + n" using a by arith
  then have "(a + n - 1) div n = ((a - 1) + n) div n" by (rule arg_cong)
  also have "\<dots> = (a - 1) div n + 1" using n by (intro div_add_self2) arith
  finally show ?thesis by (simp only: ceil_div_def Suc_eq_plus1)
qed

lemma ceil_div_step: "0 < n \<Longrightarrow> 0 < a \<Longrightarrow> ceil_div a n = Suc (ceil_div (a - n) n)"
proof -
  assume n: "0 < n" and a: "0 < a"
  show ?thesis
  proof (cases "n < a")
    case True
    then have p: "0 < a - n" by arith
    have "a - n - 1 + n = a - 1" using True n by arith
    then have "(a - 1) div n = (a - n - 1 + n) div n" by (rule arg_cong [OF sym])
    also have "\<dots> = (a - n - 1) div n + 1" using n by (intro div_add_self2) arith
    finally have "Suc ((a - 1) div n) = Suc (Suc ((a - n - 1) div n))"
      by (simp only: Suc_eq_plus1)
    then show ?thesis
      by (simp only: ceil_div_pos [OF n a] ceil_div_pos [OF n p])
  next
    case False
    then have z: "a - n = 0" by arith
    have "a - 1 < n" using False a by arith
    then have "(a - 1) div n = 0" by (rule div_less)
    then show ?thesis
      by (simp only: ceil_div_pos [OF n a] z ceil_div_0 [OF n])
  qed
qed

subsection \<open>Windows\<close>

lemma concat_windows: "0 < n \<Longrightarrow> concat (windows n xs) = xs"
proof (induction n xs rule: windows.induct)
  case (1 n xs)
  then show ?case by (cases "xs = []") (simp_all add: windows_step)
qed

lemma length_windows: "0 < n \<Longrightarrow> length (windows n xs) = ceil_div (length xs) n"
proof (induction n xs rule: windows.induct)
  case (1 n xs)
  show ?case
  proof (cases "xs = []")
    case True
    then show ?thesis using 1 by (simp add: ceil_div_0)
  next
    case False
    then show ?thesis
      using 1 by (simp add: windows_step ceil_div_step [of n "length xs"])
  qed
qed

lemma windows_bounds: "0 < n \<Longrightarrow> list_all (\<lambda>w. w \<noteq> [] \<and> length w \<le> n) (windows n xs)"
proof (induction n xs rule: windows.induct)
  case (1 n xs)
  then show ?case by (cases "xs = []") (simp_all add: windows_step)
qed

lemma windows_butlast_full: "0 < n \<Longrightarrow> list_all (\<lambda>w. length w = n) (butlast (windows n xs))"
proof (induction n xs rule: windows.induct)
  case (1 n xs)
  show ?case
  proof (cases "xs = []")
    case True
    then show ?thesis by simp
  next
    case False
    show ?thesis
    proof (cases "length xs \<le> n")
      case True
      then show ?thesis using False 1 by (simp add: windows_step)
    next
      case long: False
      then have "drop n xs \<noteq> []" by simp
      then have "windows n (drop n xs) \<noteq> []"
        using 1(2) by (simp add: windows_step)
      then show ?thesis using False long 1 by (simp add: windows_step)
    qed
  qed
qed

subsection \<open>Chunk records\<close>

lemma mk_chunks_content: "map chunk_content (mk_chunks env file k cs) = cs"
  by (induction cs arbitrary: k) simp_all

lemma mk_chunks_index: "map (chunkIndex \<circ> metadata) (mk_chunks env file k cs) = [k..<k + length cs]"
proof (induction cs arbitrary: k)
  case Nil
  then show ?case by simp
next
  case (Cons c cs)
  have lt: "k < k + length (c # cs)" by simp
  have eq: "k + length (c # cs) = Suc k + length cs" by simp
  have "[k..<k + length (c # cs)] = k # [Suc k..<Suc k + length cs]"
    using upt_conv_Cons [OF lt] unfolding eq .
  moreover have "map (chunkIndex \<circ> metadata) (mk_chunks env file k (c # cs))
                   = k # map (chunkIndex \<circ> metadata) (mk_chunks env file (Suc k) cs)"
    by simp
  ultimately show ?case using Cons [of "Suc k"] by (simp only:)
qed

lemma mk_chunks_length: "length (mk_chunks env file k cs) = length cs"
  by (induction cs arbitrary: k) simp_all

subsection \<open>The fields of the split\<close>

lemma split_from_nonempty: "split_from sep s \<noteq> []"
  by (induction s arbitrary: sep) (auto split: list.splits)

lemma split_from_ws_free: "list_all ws_free (split_from sep s)"
proof (induction s arbitrary: sep)
  case Nil
  then show ?case by (simp add: ws_free_def)
next
  case (Cons c cs)
  show ?case
  proof (cases "is_space c")
    case True
    then show ?thesis using Cons [of True] by (simp add: ws_free_def)
  next
    case False
    obtain w ws where s: "split_from False cs = w # ws"
      using split_from_nonempty [of False cs] by (cases "split_from False cs") auto
    with Cons [of False] False show ?thesis by (simp add: ws_free_def)
  qed
qed

lemma split_from_inner:
  "list_all (\<lambda>w. w \<noteq> []) (butlast (split_from True s))
   \<and> list_all (\<lambda>w. w \<noteq> []) (butlast (tl (split_from False s)))"
proof (induction s)
  case Nil
  then show ?case by simp
next
  case (Cons c cs)
  show ?case
  proof (cases "is_space c")
    case True
    then show ?thesis using Cons by simp
  next
    case False
    obtain w ws where s: "split_from False cs = w # ws"
      using split_from_nonempty [of False cs] by (cases "split_from False cs") auto
    with Cons False show ?thesis by simp
  qed
qed

lemma split_ws_space:
  "is_space c \<Longrightarrow> split_ws (c # cs) = [] # split_from True cs"
  by (simp add: split_ws_def)

lemma split_ws_nonspace:
  assumes "\<not> is_space c"
  shows "list_all (\<lambda>w. w \<noteq> []) (butlast (split_ws (c # cs)))"
proof -
  obtain w ws where s: "split_from False cs = w # ws"
    using split_from_nonempty [of False cs] by (cases "split_from False cs") auto
  with split_from_inner [of cs] assms show ?thesis by (simp add: split_ws_def)
qed

text \<open>A list whose elements but the last are not empty: its tokens, then nothing or empties.\<close>

lemma tokens_then_empties:
  assumes "list_all (\<lambda>w. w \<noteq> []) (butlast l)"
  shows "\<exists>post. l = filter (\<lambda>w. w \<noteq> []) l @ post \<and> list_all (\<lambda>w. w = []) post"
proof (cases "l = []")
  case True
  then show ?thesis by simp
next
  case False
  then have l: "l = butlast l @ [last l]" by simp
  have b: "filter (\<lambda>w. w \<noteq> []) (butlast l) = butlast l"
    using assms by (simp add: list_all_iff filter_id_conv)
  show ?thesis
  proof (cases "last l = []")
    case True
    have "filter (\<lambda>w. w \<noteq> []) l = filter (\<lambda>w. w \<noteq> []) (butlast l @ [last l])"
      using l by simp
    also have "\<dots> = butlast l" using b True by simp
    finally have "l = filter (\<lambda>w. w \<noteq> []) l @ [[]]" using l True by simp
    then show ?thesis by (intro exI [of _ "[[]]"]) simp
  next
    case nonempty: False
    have "filter (\<lambda>w. w \<noteq> []) l = filter (\<lambda>w. w \<noteq> []) (butlast l @ [last l])"
      using l by simp
    also have "\<dots> = butlast l @ [last l]" using b nonempty by simp
    finally have "l = filter (\<lambda>w. w \<noteq> []) l @ []" using l by simp
    then show ?thesis by (intro exI [of _ "[]"]) simp
  qed
qed

subsection \<open>Joining and trimming\<close>

lemma join_Cons: "xs \<noteq> [] \<Longrightarrow> join sep (x # xs) = x @ sep @ join sep xs"
  by (cases xs) simp_all

lemma join_append:
  "xs \<noteq> [] \<Longrightarrow> ys \<noteq> [] \<Longrightarrow> join sep (xs @ ys) = join sep xs @ sep @ join sep ys"
proof (induction xs rule: join.induct [of _ sep])
  case (1 sep)
  then show ?case by simp
next
  case (2 sep x)
  then show ?case by (simp add: join_Cons)
next
  case (3 sep x y ys')
  then show ?case by simp
qed

lemma join_concat:
  "list_all (\<lambda>g. g \<noteq> []) gs \<Longrightarrow> join sep (map (join sep) gs) = join sep (concat gs)"
proof (induction gs)
  case Nil
  then show ?case by simp
next
  case (Cons g gs)
  show ?case
  proof (cases "gs = []")
    case True
    then show ?thesis by simp
  next
    case False
    then have "concat gs \<noteq> []" using Cons.prems by (cases gs) auto
    then show ?thesis using Cons False by (simp add: join_Cons join_append)
  qed
qed

lemma trim_leading: "is_space c \<Longrightarrow> trim (c # s) = trim s"
  by (simp add: trim_def)

lemma trim_trailing: "is_space c \<Longrightarrow> trim (s @ [c]) = trim s"
proof (cases "list_all is_space s")
  case True
  assume "is_space c"
  with True have "\<forall>x\<in>set (s @ [c]). is_space x" and "\<forall>x\<in>set s. is_space x"
    by (simp_all add: list_all_iff)
  then have "dropWhile is_space (s @ [c]) = []" and "dropWhile is_space s = []"
    by (simp_all only: dropWhile_eq_Nil_conv)
  then show ?thesis by (simp only: trim_def rev.simps dropWhile.simps)
next
  case False
  assume c: "is_space c"
  from False obtain x where "x \<in> set s" and "\<not> is_space x"
    by (auto simp: list_all_iff)
  then have "dropWhile is_space (s @ [c]) = dropWhile is_space s @ [c]"
    by (rule dropWhile_append1)
  with c show ?thesis by (simp add: trim_def)
qed

lemma trim_id: "s = [] \<or> (\<not> is_space (hd s) \<and> \<not> is_space (last s)) \<Longrightarrow> trim s = s"
proof (cases "s = []")
  case True
  then show ?thesis by (simp add: trim_def)
next
  case False
  assume "s = [] \<or> (\<not> is_space (hd s) \<and> \<not> is_space (last s))"
  with False have h: "\<not> is_space (hd s)" and l: "\<not> is_space (last s)" by simp_all
  from False h have "dropWhile is_space s = s" by (cases s) simp_all
  moreover from False l have "dropWhile is_space (rev s) = rev s"
    by (cases "rev s") (simp_all add: last_rev [symmetric] hd_rev)
  ultimately show ?thesis by (simp add: trim_def)
qed

lemma space_is_space: "is_space CHR '' ''"
  by (simp add: is_space_def)

lemma join_tokens_ends:
  "m \<noteq> [] \<Longrightarrow> list_all (\<lambda>w. w \<noteq> [] \<and> ws_free w) m \<Longrightarrow>
     join '' '' m \<noteq> [] \<and> \<not> is_space (hd (join '' '' m)) \<and> \<not> is_space (last (join '' '' m))"
proof (induction m rule: induct_list012)
  case 1
  then show ?case by simp
next
  case (2 x)
  then have "x \<noteq> []" and "hd x \<in> set x" and "last x \<in> set x" by simp_all
  moreover from 2 have "\<And>c. c \<in> set x \<Longrightarrow> \<not> is_space c"
    by (simp add: ws_free_def list_all_iff)
  ultimately show ?case by simp
next
  case (3 x y zs)
  then have "join '' '' (y # zs) \<noteq> []" and "\<not> is_space (last (join '' '' (y # zs)))"
    by simp_all
  moreover from 3 have "x \<noteq> []" and "\<not> is_space (hd x)"
    by (cases x; simp add: ws_free_def)+
  ultimately show ?case by simp
qed

lemma trim_join_tokens:
  assumes "list_all (\<lambda>w. w \<noteq> [] \<and> ws_free w) m"
  shows "trim (join '' '' m) = join '' '' m"
proof (cases "m = []")
  case True
  then show ?thesis by (simp add: trim_def)
next
  case False
  from join_tokens_ends [OF False assms] show ?thesis by (intro trim_id) simp
qed

lemma trim_join_trailing_empty: "trim (join '' '' (r @ [[]])) = trim (join '' '' r)"
proof (cases "r = []")
  case True
  then show ?thesis by simp
next
  case False
  then have "join '' '' (r @ [[]]) = join '' '' r @ '' ''"
    by (simp add: join_append)
  then show ?thesis using trim_trailing [OF space_is_space, of "join '' '' r"] by simp
qed

lemma trim_join_leading_empty: "trim (join '' '' ([] # r)) = trim (join '' '' r)"
proof (cases "r = []")
  case True
  then show ?thesis by simp
next
  case False
  then have "join '' '' ([] # r) = CHR '' '' # join '' '' r"
    by (simp add: join_Cons)
  then show ?thesis using trim_leading [OF space_is_space, of "join '' '' r"] by simp
qed

lemma content_of_tail:
  assumes "list_all ws_free l" and "list_all (\<lambda>w. w \<noteq> []) (butlast l)"
  shows "trim (join '' '' l) = join '' '' (filter (\<lambda>w. w \<noteq> []) l)"
proof (cases "l = []")
  case True
  then show ?thesis by (simp add: trim_def)
next
  case False
  then have l: "l = butlast l @ [last l]" by simp
  have b: "list_all (\<lambda>w. w \<noteq> [] \<and> ws_free w) (butlast l)"
    using assms by (auto simp: list_all_iff dest: in_set_butlastD)
  then have fb: "filter (\<lambda>w. w \<noteq> []) (butlast l) = butlast l"
    by (simp add: list_all_iff filter_id_conv)
  show ?thesis
  proof (cases "last l = []")
    case True
    have "trim (join '' '' l) = trim (join '' '' (butlast l @ [[]]))"
      using l True by simp
    also have "\<dots> = join '' '' (butlast l)"
      by (simp only: trim_join_trailing_empty trim_join_tokens [OF b])
    also have "butlast l = filter (\<lambda>w. w \<noteq> []) (butlast l @ [last l])"
      using fb True by simp
    finally show ?thesis using l by simp
  next
    case nonempty: False
    have "ws_free (last l)" using assms(1) False by (simp add: list_all_iff)
    with b nonempty have "list_all (\<lambda>w. w \<noteq> [] \<and> ws_free w) (butlast l @ [last l])"
      by simp
    then have a: "list_all (\<lambda>w. w \<noteq> [] \<and> ws_free w) l" using l by simp
    then have "filter (\<lambda>w. w \<noteq> []) l = l" by (simp add: list_all_iff filter_id_conv)
    with trim_join_tokens [OF a] show ?thesis by simp
  qed
qed

lemma window_content_tokens:
  assumes "list_all ws_free w" and "list_all (\<lambda>x. x \<noteq> []) (butlast (tl w))"
  shows "window_content w = join '' '' (filter (\<lambda>x. x \<noteq> []) w)"
proof (cases w)
  case Nil
  then show ?thesis by (simp add: window_content_def trim_def)
next
  case (Cons x r)
  show ?thesis
  proof (cases "x = []")
    case True
    have "trim (join '' '' r) = join '' '' (filter (\<lambda>x. x \<noteq> []) r)"
      using assms Cons by (intro content_of_tail) simp_all
    then show ?thesis
      using Cons True by (simp only: window_content_def trim_join_leading_empty) simp
  next
    case False
    have "butlast w = (if r = [] then [] else x # butlast r)" using Cons by simp
    then have "list_all (\<lambda>x. x \<noteq> []) (butlast w)"
      using assms(2) Cons False by simp
    from content_of_tail [OF assms(1) this] show ?thesis
      by (simp add: window_content_def)
  qed
qed

lemma inner_take: "set (butlast (tl (take n l))) \<subseteq> set (butlast (tl l))"
proof (cases "n < length l")
  case False
  then show ?thesis by simp
next
  case True
  then have le: "n - 1 \<le> length (tl l)" by simp
  have "butlast (tl (take n l)) = butlast (take (n - 1) (tl l))"
    by (simp add: tl_take)
  also have "\<dots> = take (n - 1 - 1) (tl l)"
    using le by (rule butlast_take)
  finally have "set (butlast (tl (take n l))) = set (take (n - 1 - 1) (tl l))" by simp
  also have "\<dots> \<subseteq> set (take (length (tl l) - 1) (tl l))"
    using le by (intro set_take_subset_set_take) simp
  also have "take (length (tl l) - 1) (tl l) = butlast (tl l)"
    by (simp add: butlast_conv_take)
  finally show ?thesis .
qed

lemma inner_drop: "set (butlast (tl (drop n l))) \<subseteq> set (butlast (tl l))"
  by (metis set_drop_subset drop_butlast tl_drop)

lemma tidy_take: "tidy l \<Longrightarrow> tidy (take n l)"
  using inner_take [of n l] set_take_subset [of n l]
  by (auto simp: tidy_def list_all_iff)

lemma tidy_drop: "tidy l \<Longrightarrow> tidy (drop n l)"
  using inner_drop [of n l] set_drop_subset [of n l]
  by (auto simp: tidy_def list_all_iff)

lemma tidy_split_ws: "tidy (split_ws doc)"
proof -
  have "list_all ws_free (split_ws doc)"
    by (simp add: split_ws_def split_from_ws_free)
  moreover have "list_all (\<lambda>x. x \<noteq> []) (butlast (tl (split_ws doc)))"
    using split_from_inner [of doc] by (simp add: split_ws_def)
  ultimately show ?thesis by (simp add: tidy_def)
qed

lemma tidy_windows: "tidy l \<Longrightarrow> list_all tidy (windows n l)"
proof (induction n l rule: windows.induct)
  case (1 n xs)
  show ?case
  proof (cases "n = 0 \<or> xs = []")
    case True
    then show ?thesis by (auto simp: windows.simps)
  next
    case False
    then have "windows n xs = take n xs # windows n (drop n xs)"
      by (simp add: windows_step)
    with 1 False show ?thesis by (simp add: tidy_take tidy_drop)
  qed
qed

lemma join_tokens_empty:
  "list_all (\<lambda>w. w \<noteq> []) g \<Longrightarrow> join '' '' g = [] \<longleftrightarrow> g = []"
  by (induction g rule: induct_list012) simp_all

lemma chunk_contents_groups:
  assumes "tidy words"
  shows "chunk_contents n words = map (join '' '') (token_groups n words)"
proof -
  have "list_all tidy (windows n words)" using assms by (rule tidy_windows)
  then have "map window_content (windows n words)
               = map (join '' '' \<circ> filter (\<lambda>x. x \<noteq> [])) (windows n words)"
    by (auto simp: list_all_iff tidy_def window_content_tokens)
  moreover have "filter (\<lambda>c. c \<noteq> []) (map (join '' '') gs) = map (join '' '') (filter (\<lambda>g. g \<noteq> []) gs)"
    if "list_all (list_all (\<lambda>w. w \<noteq> [])) gs" for gs
    using that by (induction gs) (simp_all add: join_tokens_empty)
  moreover have "list_all (list_all (\<lambda>w. w \<noteq> [])) (map (filter (\<lambda>x. x \<noteq> [])) (windows n words))"
    by (simp add: list_all_iff)
  ultimately have "filter (\<lambda>c. c \<noteq> []) (map window_content (windows n words))
      = map (join '' '') (filter (\<lambda>g. g \<noteq> [])
          (map (filter (\<lambda>x. x \<noteq> [])) (windows n words)))"
    by (simp only: map_map [symmetric])
  then show ?thesis
    by (simp only: chunk_contents_def token_groups_def)
qed

lemma concat_nonempty: "concat (filter (\<lambda>g. g \<noteq> []) gs) = concat gs"
  by (induction gs) simp_all

lemma concat_token_groups:
  "0 < n \<Longrightarrow> concat (token_groups n words) = filter (\<lambda>w. w \<noteq> []) words"
proof -
  assume n: "0 < n"
  have "concat (token_groups n words) = concat (map (filter (\<lambda>w. w \<noteq> [])) (windows n words))"
    by (simp add: token_groups_def concat_nonempty)
  also have "\<dots> = filter (\<lambda>w. w \<noteq> []) (concat (windows n words))"
    by (simp add: filter_concat)
  finally show ?thesis using n by (simp add: concat_windows)
qed

lemma token_groups_bounds:
  "0 < n \<Longrightarrow> list_all (\<lambda>g. g \<noteq> [] \<and> length g \<le> n) (token_groups n words)"
proof -
  assume "0 < n"
  from windows_bounds [OF this, of words]
  have "\<And>w. w \<in> set (windows n words) \<Longrightarrow> length w \<le> n" by (simp add: list_all_iff)
  then have "\<And>w. w \<in> set (windows n words) \<Longrightarrow> length (filter (\<lambda>x. x \<noteq> []) w) \<le> n"
    using length_filter_le order_trans by blast
  then show ?thesis by (auto simp: token_groups_def list_all_iff)
qed

subsection \<open>Counting the chunks\<close>

lemma token_groups_step:
  assumes "0 < n" and "l \<noteq> []"
  shows "token_groups n l
           = (if filter (\<lambda>w. w \<noteq> []) (take n l) \<noteq> [] then [filter (\<lambda>w. w \<noteq> []) (take n l)] else [])
             @ token_groups n (drop n l)"
  using assms by (simp add: token_groups_def windows_step)

lemma token_groups_empties:
  assumes "list_all (\<lambda>w. w = []) l"
  shows "token_groups n l = []"
proof (cases "0 < n")
  case False
  then show ?thesis by (simp add: token_groups_def windows.simps)
next
  case True
  have "concat (token_groups n l) = []"
    using assms by (simp add: concat_token_groups [OF True] list_all_iff filter_empty_conv)
  moreover have "list_all (\<lambda>g. g \<noteq> []) (token_groups n l)"
    by (simp add: token_groups_def list_all_iff)
  ultimately show ?thesis by (cases "token_groups n l") auto
qed

lemma filter_take_tokens:
  assumes "list_all (\<lambda>w. w \<noteq> []) toks" and "list_all (\<lambda>w. w = []) post"
  shows "filter (\<lambda>w. w \<noteq> []) (take k (toks @ post)) = take k toks"
proof -
  have "filter (\<lambda>w. w \<noteq> []) (take k toks) = take k toks"
    using assms(1) by (auto simp: list_all_iff filter_id_conv dest: in_set_takeD)
  moreover have "filter (\<lambda>w. w \<noteq> []) (take (k - length toks) post) = []"
    using assms(2) by (auto simp: list_all_iff filter_empty_conv dest: in_set_takeD)
  ultimately show ?thesis by simp
qed

lemma count_tokens_then_empties:
  assumes "0 < n"
  shows "list_all (\<lambda>w. w \<noteq> []) toks \<Longrightarrow> list_all (\<lambda>w. w = []) post \<Longrightarrow>
         length (token_groups n (toks @ post)) = ceil_div (length toks) n"
proof (induction "length toks" arbitrary: toks post rule: less_induct)
  case less
  show ?case
  proof (cases "toks = []")
    case True
    then show ?thesis
      using less.prems assms by (simp add: token_groups_empties ceil_div_0)
  next
    case False
    have first: "filter (\<lambda>w. w \<noteq> []) (take n (toks @ post)) = take n toks"
      using less.prems by (rule filter_take_tokens)
    have "take n toks \<noteq> []" using False assms by simp
    with first have step: "token_groups n (toks @ post)
        = [take n toks] @ token_groups n (drop n toks @ drop (n - length toks) post)"
      using token_groups_step [OF assms, of "toks @ post"] False by simp
    have shorter: "length (drop n toks) < length toks" using False assms by simp
    have t: "list_all (\<lambda>w. w \<noteq> []) (drop n toks)"
      using less.prems(1) by (auto simp: list_all_iff dest: in_set_dropD)
    have p: "list_all (\<lambda>w. w = []) (drop (n - length toks) post)"
      using less.prems(2) by (auto simp: list_all_iff dest: in_set_dropD)
    have "length (token_groups n (drop n toks @ drop (n - length toks) post))
            = ceil_div (length toks - n) n"
      using less.hyps [OF shorter t p] by simp
    with step have "length (token_groups n (toks @ post)) = Suc (ceil_div (length toks - n) n)"
      by simp
    also have "\<dots> = ceil_div (length toks) n"
      using ceil_div_step [OF assms, of "length toks"] False by simp
    finally show ?thesis .
  qed
qed

lemma count_leading_empty:
  assumes "0 < n" and "list_all (\<lambda>w. w \<noteq> []) toks" and "list_all (\<lambda>w. w = []) post"
  shows "length (token_groups n ([] # toks @ post))
           = ceil_div (length toks + (if toks \<noteq> [] \<and> 1 < n then 1 else 0)) n"
proof -
  have tk: "take n ([] # toks @ post) = [] # take (n - 1) (toks @ post)"
    using assms(1) by (cases n) simp_all
  have dr: "drop n ([] # toks @ post) = drop (n - 1) toks @ drop (n - 1 - length toks) post"
    using assms(1) by (cases n) simp_all
  have first: "filter (\<lambda>w. w \<noteq> []) (take n ([] # toks @ post)) = take (n - 1) toks"
    using filter_take_tokens [OF assms(2,3), of "n - 1"] by (simp add: tk)
  have t: "list_all (\<lambda>w. w \<noteq> []) (drop (n - 1) toks)"
    using assms(2) by (auto simp: list_all_iff dest: in_set_dropD)
  have p: "list_all (\<lambda>w. w = []) (drop (n - 1 - length toks) post)"
    using assms(3) by (auto simp: list_all_iff dest: in_set_dropD)
  have rest: "length (token_groups n (drop n ([] # toks @ post)))
                = ceil_div (length toks - (n - 1)) n"
    using count_tokens_then_empties [OF assms(1) t p] by (simp add: dr)
  have step: "length (token_groups n ([] # toks @ post))
      = (if take (n - 1) toks \<noteq> [] then 1 else 0) + ceil_div (length toks - (n - 1)) n"
    using token_groups_step [OF assms(1), of "[] # toks @ post"] first rest by simp
  show ?thesis
  proof (cases "toks \<noteq> [] \<and> 1 < n")
    case True
    then have "take (n - 1) toks \<noteq> []" by simp
    moreover have "length toks + 1 - n = length toks - (n - 1)" using True by arith
    ultimately show ?thesis
      using step True ceil_div_step [OF assms(1), of "length toks + 1"] by simp
  next
    case False
    then have "take (n - 1) toks = []" using assms(1) by auto
    moreover have "ceil_div (length toks - (n - 1)) n = ceil_div (length toks) n"
    proof (cases "toks = []")
      case True
      then show ?thesis by simp
    next
      case nonempty: False
      with False assms(1) have "n = 1" by arith
      then show ?thesis by simp
    qed
    ultimately have "length (token_groups n ([] # toks @ post)) = ceil_div (length toks) n"
      using step by simp
    moreover have "(if toks \<noteq> [] \<and> 1 < n then 1 else 0) = (0::nat)"
      using False by auto
    ultimately show ?thesis by (simp only: add_0_right)
  qed
qed

lemma chunk_count:
  assumes "0 < n"
  shows "length (token_groups n (split_ws doc))
           = ceil_div (length (doc_tokens doc)
               + (if starts_with_space doc \<and> doc_tokens doc \<noteq> [] \<and> 1 < n then 1 else 0)) n"
proof (cases doc)
  case Nil
  have "token_groups n (split_ws []) = token_groups n ([] @ [[]])"
    by (simp add: split_ws_def)
  also have "length \<dots> = ceil_div (length ([] :: string list)) n"
    by (rule count_tokens_then_empties [OF assms]) simp_all
  finally show ?thesis
    using Nil assms by (simp add: doc_tokens_def split_ws_def starts_with_space_def ceil_div_0)
next
  case (Cons c cs)
  show ?thesis
  proof (cases "is_space c")
    case True
    let ?r = "split_from True cs"
    obtain post where r: "?r = filter (\<lambda>w. w \<noteq> []) ?r @ post"
      and post: "list_all (\<lambda>w. w = []) post"
      using tokens_then_empties [of ?r] split_from_inner [of cs] by blast
    have toks: "doc_tokens doc = filter (\<lambda>w. w \<noteq> []) ?r"
      using Cons True by (simp add: doc_tokens_def split_ws_space)
    have "split_ws doc = [] # doc_tokens doc @ post"
      using Cons True r toks by (simp add: split_ws_space)
    moreover have "list_all (\<lambda>w. w \<noteq> []) (doc_tokens doc)"
      by (simp add: doc_tokens_def list_all_iff)
    ultimately show ?thesis
      using count_leading_empty [OF assms _ post, of "doc_tokens doc"] Cons True
      by (simp add: starts_with_space_def)
  next
    case False
    let ?r = "split_ws doc"
    obtain post where r: "?r = filter (\<lambda>w. w \<noteq> []) ?r @ post"
      and post: "list_all (\<lambda>w. w = []) post"
      using tokens_then_empties [of ?r] split_ws_nonspace [OF False, of cs] Cons by blast
    have "list_all (\<lambda>w. w \<noteq> []) (doc_tokens doc)"
      by (simp add: doc_tokens_def list_all_iff)
    from count_tokens_then_empties [OF assms this post] r
    show ?thesis using Cons False by (simp add: starts_with_space_def doc_tokens_def)
  qed
qed

subsection \<open>The contract of the generator\<close>

text \<open>With a positive window and batch size the generator returns, and what it yields is this.\<close>

lemma stream_result:
  assumes "0 < chunkSize" and "0 < batchSize"
  shows "streamChunksFromFile env (Inr doc) file chunkSize batchSize
           = Some (Inr (windows batchSize
                    (mk_chunks env file 0 (chunk_contents chunkSize (split_ws doc)))))"
  using chunk_loop_result [OF assms, where batch = "[]" and start = 0 and k = 0
      and yielded = "[]" and ws = "split_ws doc"] assms
  by (simp add: streamChunksFromFile_def)

text \<open>
  Claim C1, as amended. For every document text with \<open>N\<close> tokens, every window size
  \<open>W > 0\<close> and batch size \<open>B > 0\<close>, \<open>streamChunksFromFile\<close> returns, and the batches it yields
  satisfy: the number of chunks is \<open>ceil (N / W)\<close> when the text does not begin with white
  space, and \<open>ceil ((N + 1) / W)\<close> when it does (for \<open>N > 0\<close> and \<open>W > 1\<close>), because the empty
  first field of the split takes a place in the first window; the number of batches is
  the number of chunks divided by \<open>B\<close>, rounded up; no batch is empty or longer than \<open>B\<close>,
  and every batch but the last holds exactly \<open>B\<close> chunks; the \<open>chunkIndex\<close> fields are 0, 1,
  2, ... in order; the chunk contents are, in order, the token groups joined with
  single spaces, where the groups are not empty, hold at most \<open>W\<close> tokens each and
  concatenate to the token sequence of the document; and joining all chunk contents
  with single spaces gives the tokens of the document joined with single spaces.
\<close>

theorem stream_chunks_contract:
  assumes "0 < chunkSize" and "0 < batchSize"
  shows "(\<exists>batches.
      streamChunksFromFile env (Inr doc) file chunkSize batchSize = Some (Inr batches))
    \<and> (\<forall>batches.
      streamChunksFromFile env (Inr doc) file chunkSize batchSize = Some (Inr batches) \<longrightarrow>
      length (concat batches)
        = ceil_div (length (doc_tokens doc)
            + (if starts_with_space doc \<and> doc_tokens doc \<noteq> [] \<and> 1 < chunkSize then 1 else 0))
            chunkSize
    \<and> (\<not> starts_with_space doc \<longrightarrow>
          length (concat batches) = ceil_div (length (doc_tokens doc)) chunkSize)
    \<and> length batches = ceil_div (length (concat batches)) batchSize
    \<and> list_all (\<lambda>b. b \<noteq> [] \<and> length b \<le> batchSize) batches
    \<and> list_all (\<lambda>b. length b = batchSize) (butlast batches)
    \<and> map (chunkIndex \<circ> metadata) (concat batches) = [0..<length (concat batches)]
    \<and> map chunk_content (concat batches)
        = map (join '' '') (token_groups chunkSize (split_ws doc))
    \<and> concat (token_groups chunkSize (split_ws doc)) = doc_tokens doc
    \<and> list_all (\<lambda>g. g \<noteq> [] \<and> length g \<le> chunkSize) (token_groups chunkSize (split_ws doc))
    \<and> join '' '' (map chunk_content (concat batches)) = join '' '' (doc_tokens doc))"
proof -
  let ?cs = "chunk_contents chunkSize (split_ws doc)"
  let ?chunks = "mk_chunks env file 0 ?cs"
  let ?batches = "windows batchSize ?chunks"
  let ?groups = "token_groups chunkSize (split_ws doc)"
  have r: "streamChunksFromFile env (Inr doc) file chunkSize batchSize = Some (Inr ?batches)"
    using assms by (rule stream_result)
  have c: "concat ?batches = ?chunks"
    using assms(2) by (rule concat_windows)
  have g: "?cs = map (join '' '') ?groups"
    using tidy_split_ws by (rule chunk_contents_groups)
  have n: "length ?chunks = length ?groups"
    by (simp add: mk_chunks_length g)
  have count: "length ?chunks
        = ceil_div (length (doc_tokens doc)
            + (if starts_with_space doc \<and> doc_tokens doc \<noteq> [] \<and> 1 < chunkSize then 1 else 0))
            chunkSize"
    unfolding n using assms(1) by (rule chunk_count)
  have count': "\<not> starts_with_space doc \<longrightarrow>
          length ?chunks = ceil_div (length (doc_tokens doc)) chunkSize"
    using count by simp
  have nb: "length ?batches = ceil_div (length ?chunks) batchSize"
    using assms(2) by (rule length_windows)
  have b1: "list_all (\<lambda>b. b \<noteq> [] \<and> length b \<le> batchSize) ?batches"
    using assms(2) by (rule windows_bounds)
  have b2: "list_all (\<lambda>b. length b = batchSize) (butlast ?batches)"
    using assms(2) by (rule windows_butlast_full)
  have idx: "map (chunkIndex \<circ> metadata) ?chunks = [0..<length ?chunks]"
    by (simp add: mk_chunks_index mk_chunks_length)
  have cont: "map chunk_content ?chunks = map (join '' '') ?groups"
    by (simp only: mk_chunks_content g)
  have toks: "concat ?groups = doc_tokens doc"
    using assms(1) by (simp add: concat_token_groups doc_tokens_def)
  have gb: "list_all (\<lambda>g. g \<noteq> [] \<and> length g \<le> chunkSize) ?groups"
    using assms(1) by (rule token_groups_bounds)
  have "join '' '' (map (join '' '') ?groups) = join '' '' (concat ?groups)"
    using gb by (intro join_concat) (simp add: list_all_iff)
  then have j: "join '' '' (map chunk_content ?chunks) = join '' '' (doc_tokens doc)"
    by (simp only: cont toks)
  have all: "length (concat ?batches)
        = ceil_div (length (doc_tokens doc)
            + (if starts_with_space doc \<and> doc_tokens doc \<noteq> [] \<and> 1 < chunkSize then 1 else 0))
            chunkSize
    \<and> (\<not> starts_with_space doc \<longrightarrow>
          length (concat ?batches) = ceil_div (length (doc_tokens doc)) chunkSize)
    \<and> length ?batches = ceil_div (length (concat ?batches)) batchSize
    \<and> list_all (\<lambda>b. b \<noteq> [] \<and> length b \<le> batchSize) ?batches
    \<and> list_all (\<lambda>b. length b = batchSize) (butlast ?batches)
    \<and> map (chunkIndex \<circ> metadata) (concat ?batches) = [0..<length (concat ?batches)]
    \<and> map chunk_content (concat ?batches) = map (join '' '') ?groups
    \<and> concat ?groups = doc_tokens doc
    \<and> list_all (\<lambda>g. g \<noteq> [] \<and> length g \<le> chunkSize) ?groups
    \<and> join '' '' (map chunk_content (concat ?batches)) = join '' '' (doc_tokens doc)"
    unfolding c using count count' nb b1 b2 idx cont toks gb j by (intro conjI)
  have "\<exists>batches.
      streamChunksFromFile env (Inr doc) file chunkSize batchSize = Some (Inr batches)"
    by (rule exI [where x = "?batches"]) (rule r)
  moreover have "\<forall>batches.
      streamChunksFromFile env (Inr doc) file chunkSize batchSize = Some (Inr batches) \<longrightarrow>
      length (concat batches)
        = ceil_div (length (doc_tokens doc)
            + (if starts_with_space doc \<and> doc_tokens doc \<noteq> [] \<and> 1 < chunkSize then 1 else 0))
            chunkSize
    \<and> (\<not> starts_with_space doc \<longrightarrow>
          length (concat batches) = ceil_div (length (doc_tokens doc)) chunkSize)
    \<and> length batches = ceil_div (length (concat batches)) batchSize
    \<and> list_all (\<lambda>b. b \<noteq> [] \<and> length b \<le> batchSize) batches
    \<and> list_all (\<lambda>b. length b = batchSize) (butlast batches)
    \<and> map (chunkIndex \<circ> metadata) (concat batches) = [0..<length (concat batches)]
    \<and> map chunk_content (concat batches) = map (join '' '') ?groups
    \<and> concat ?groups = doc_tokens doc
    \<and> list_all (\<lambda>g. g \<noteq> [] \<and> length g \<le> chunkSize) ?groups
    \<and> join '' '' (map chunk_content (concat batches)) = join '' '' (doc_tokens doc)"
  proof (rule allI, rule impI)
    fix batches
    assume "streamChunksFromFile env (Inr doc) file chunkSize batchSize = Some (Inr batches)"
    with r have eq: "batches = ?batches" by simp
    show "length (concat batches)
        = ceil_div (length (doc_tokens doc)
            + (if starts_with_space doc \<and> doc_tokens doc \<noteq> [] \<and> 1 < chunkSize then 1 else 0))
            chunkSize
    \<and> (\<not> starts_with_space doc \<longrightarrow>
          length (concat batches) = ceil_div (length (doc_tokens doc)) chunkSize)
    \<and> length batches = ceil_div (length (concat batches)) batchSize
    \<and> list_all (\<lambda>b. b \<noteq> [] \<and> length b \<le> batchSize) batches
    \<and> list_all (\<lambda>b. length b = batchSize) (butlast batches)
    \<and> map (chunkIndex \<circ> metadata) (concat batches) = [0..<length (concat batches)]
    \<and> map chunk_content (concat batches) = map (join '' '') ?groups
    \<and> concat ?groups = doc_tokens doc
    \<and> list_all (\<lambda>g. g \<noteq> [] \<and> length g \<le> chunkSize) ?groups
    \<and> join '' '' (map chunk_content (concat batches)) = join '' '' (doc_tokens doc)"
      unfolding eq by (rule all)
  qed
  ultimately show ?thesis by (rule conjI)
qed

lemma five_words_tokens: "doc_tokens five_words = [''a'', ''b'', ''c'', ''d'', ''e'']"
  unfolding five_words_def by code_simp

lemma five_words_groups:
  "token_groups 2 (split_ws five_words) = [[''a'', ''b''], [''c'', ''d''], [''e'']]"
  unfolding five_words_def by code_simp

text \<open>Five words, windows of two, batches of two: three chunks in two batches.\<close>

theorem stream_chunks_contract_witness:
  "\<exists>batches. streamChunksFromFile env0 (Inr five_words) ''notes.md'' 2 2 = Some (Inr batches)
     \<and> length (concat batches) = 3 \<and> length batches = 2
     \<and> map (chunkIndex \<circ> metadata) (concat batches) = [0, 1, 2]
     \<and> map chunk_content (concat batches) = [''a b'', ''c d'', ''e'']"
proof -
  have w: "0 < (2::nat)" by simp
  have s: "\<not> starts_with_space five_words"
    by (simp add: starts_with_space_def five_words_def is_space_def)
  have c1: "ceil_div (length (doc_tokens five_words)) 2 = 3"
    by (simp add: five_words_tokens ceil_div_def)
  have c2: "ceil_div 3 2 = 2" by (simp add: ceil_div_def)
  have u: "[0..<3] = [0, 1, 2::nat]" by code_simp
  note contract = stream_chunks_contract [OF w w, of env0 five_words "''notes.md''"]
  from contract [THEN conjunct1] obtain batches where
    r: "streamChunksFromFile env0 (Inr five_words) ''notes.md'' 2 2 = Some (Inr batches)" ..
  note facts = contract [THEN conjunct2, rule_format, OF r]
  have n: "length (concat batches) = 3"
    using facts [THEN conjunct2, THEN conjunct1] s c1 by simp
  have b: "length batches = 2"
    using facts [THEN conjunct2, THEN conjunct2, THEN conjunct1] n c2 by simp
  have i: "map (chunkIndex \<circ> metadata) (concat batches) = [0, 1, 2]"
    using facts [THEN conjunct2, THEN conjunct2, THEN conjunct2, THEN conjunct2,
        THEN conjunct2, THEN conjunct1] n u by simp
  have c: "map chunk_content (concat batches) = [''a b'', ''c d'', ''e'']"
    using facts [THEN conjunct2, THEN conjunct2, THEN conjunct2, THEN conjunct2,
        THEN conjunct2, THEN conjunct2, THEN conjunct1]
    by (simp add: five_words_groups)
  from r n b i c
  have all: "streamChunksFromFile env0 (Inr five_words) ''notes.md'' 2 2 = Some (Inr batches)
     \<and> length (concat batches) = 3 \<and> length batches = 2
     \<and> map (chunkIndex \<circ> metadata) (concat batches) = [0, 1, 2]
     \<and> map chunk_content (concat batches) = [''a b'', ''c d'', ''e'']"
    by (intro conjI)
  show ?thesis by (rule exI [where x = batches]) (rule all)
qed

lemma leading_space_contents: "chunk_contents 2 (split_ws '' a b'') = [''a'', ''b'']"
  by code_simp

text \<open>
  Claim C1 as stated fails on a text that begins with white space: \<open>" a b"\<close> has two
  tokens, so with windows of two the claim promises one chunk, but the generator
  yields the two chunks \<open>a\<close> and \<open>b\<close>.
\<close>

theorem stream_chunks_leading_space:
  "length (doc_tokens '' a b'') = 2 \<and> ceil_div 2 2 = 1
   \<and> map_option (map_sum id (\<lambda>batches. map chunk_content (concat batches)))
        (streamChunksFromFile env0 (Inr '' a b'') ''notes.md'' 2 1)
      = Some (Inr [''a'', ''b''])"
proof -
  have "length (doc_tokens '' a b'') = 2" by code_simp
  moreover have "ceil_div 2 2 = 1" by (simp add: ceil_div_def)
  moreover have "map_option (map_sum id (\<lambda>batches. map chunk_content (concat batches)))
        (streamChunksFromFile env0 (Inr '' a b'') ''notes.md'' 2 1)
      = Some (Inr [''a'', ''b''])"
    by (simp add: stream_result concat_windows mk_chunks_content leading_space_contents)
  ultimately show ?thesis by simp
qed

subsection \<open>The window size 0\<close>

lemma chunk_loop_zero:
  assumes "chunk_loop env file chunkSize batchSize words startIndex batch k yielded = Some y"
  shows "\<not> (chunkSize = 0 \<and> startIndex < length words)"
proof (rule chunk_loop.raw_induct
    [where P = "\<lambda>env src chunkSize batchSize words startIndex batch k yielded y.
                  \<not> (chunkSize = 0 \<and> startIndex < length words)", OF _ assms])
  fix loop :: "chunk_env \<Rightarrow> string \<Rightarrow> nat \<Rightarrow> nat \<Rightarrow> string list \<Rightarrow> nat \<Rightarrow> DocumentChunk list
      \<Rightarrow> nat \<Rightarrow> DocumentChunk list list \<Rightarrow> DocumentChunk list list option"
    and env src chunkSize batchSize words startIndex batch k yielded y
  assume ih: "\<And>env src chunkSize batchSize words startIndex batch k yielded y.
      loop env src chunkSize batchSize words startIndex batch k yielded = Some y
        \<Longrightarrow> \<not> (chunkSize = 0 \<and> startIndex < length words)"
    and body: "(if startIndex < length words then
        (let endIndex = min (startIndex + chunkSize) (length words);
             chunkContent = trim (join '' '' (slice startIndex endIndex words));
             pushed = (if chunkContent \<noteq> []
                       then batch @ [\<lparr>chunk_id = uuid env k,
                                      chunk_content = chunkContent,
                                      chunk_source = src,
                                      metadata = \<lparr>fileName = src, chunkIndex = k,
                                                  processedAt = clock env k\<rparr>\<rparr>]
                       else batch);
             nextIdx = (if chunkContent \<noteq> [] then k + 1 else k)
         in if length pushed = batchSize
            then loop env src chunkSize batchSize words (startIndex + chunkSize) []
                   nextIdx (yielded @ [pushed])
            else loop env src chunkSize batchSize words (startIndex + chunkSize) pushed
                   nextIdx yielded)
      else Some (if length batch > 0 then yielded @ [batch] else yielded)) = Some y"
  show "\<not> (chunkSize = 0 \<and> startIndex < length words)"
  proof
    assume z: "chunkSize = 0 \<and> startIndex < length words"
    with body obtain b i ys where
      "loop env src chunkSize batchSize words (startIndex + chunkSize) b i ys = Some y"
      by (auto simp: Let_def split: if_splits)
    from ih [OF this] z show False by simp
  qed
qed

text \<open>
  With the window size 0 the loop never advances: for every document the generator
  never returns.
\<close>

theorem zero_window_never_returns:
  "streamChunksFromFile env (Inr doc) file 0 batchSize = None"
proof (cases "chunk_loop env file 0 batchSize (split_ws doc) 0 [] 0 []")
  case None
  then show ?thesis by (simp add: streamChunksFromFile_def)
next
  case (Some y)
  from chunk_loop_zero [OF this] have "split_ws doc = []" by simp
  then show ?thesis by (simp add: split_ws_def split_from_nonempty)
qed

section \<open>The agent pipeline when generation fails\<close>

lemma weather_execute_data:
  "success (weather_execute apiKey owm rnd now message)
     \<Longrightarrow> data (weather_execute apiKey owm rnd now message) \<noteq> None"
  by (auto simp: weather_execute_def Let_def split: option.splits sum.splits)

lemma math_execute_data:
  "success (math_execute mathjs now message)
     \<Longrightarrow> data (math_execute mathjs now message) \<noteq> None"
  by (auto simp: math_execute_def split: option.splits sum.splits)

lemma registered_results_data:
  "list_all (\<lambda>r. success r \<longrightarrow> data r \<noteq> None)
     (detectAndExecutePlugins (registered_plugins cfg env) message)"
  using weather_execute_data [of "cfg_weatherApiKey cfg" "env_owm env" "env_rnd env"
          "env_t_plugins env" message]
        math_execute_data [of "env_mathjs env" "env_t_plugins env" message]
  by (auto simp: registered_plugins_def WeatherPlugin_def MathPlugin_def)

lemma plugin_lines_returns:
  "success r \<longrightarrow> data r \<noteq> None \<Longrightarrow> \<exists>ls. plugin_lines num index r = Inr ls"
  by (auto simp: plugin_lines_def Let_def split: option.splits plugin_data.splits)

lemma plugin_section_returns:
  "list_all (\<lambda>r. success r \<longrightarrow> data r \<noteq> None) rs \<Longrightarrow> \<exists>ps. plugin_section num index rs = Inr ps"
proof (induction rs arbitrary: index)
  case Nil
  then show ?case by simp
next
  case (Cons r rs)
  then obtain ls where "plugin_lines num index r = Inr ls"
    using plugin_lines_returns [of r num index] by auto
  moreover obtain ps where "plugin_section num (Suc index) rs = Inr ps"
    using Cons by auto
  ultimately show ?case by simp
qed

lemma buildPrompt_returns:
  "list_all (\<lambda>r. success r \<longrightarrow> data r \<noteq> None) rs
     \<Longrightarrow> \<exists>prompt. buildPrompt num message summary docs rs = Inr prompt"
  using plugin_section_returns [of rs num 0]
  by (auto simp: buildPrompt_def Let_def)

lemma request_prompt_returns: "\<exists>prompt. request_prompt cfg env ss sid message = Inr prompt"
proof -
  obtain ss2 summary rs docs where g: "gather cfg env ss sid message = (ss2, summary, rs, docs)"
    by (cases "gather cfg env ss sid message") auto
  then have "rs = detectAndExecutePlugins (registered_plugins cfg env) message"
    by (auto simp: gather_def Let_def split: prod.splits)
  then have "list_all (\<lambda>r. success r \<longrightarrow> data r \<noteq> None) rs"
    using registered_results_data [of cfg env message] by simp
  from buildPrompt_returns [OF this] g show ?thesis
    by (simp add: request_prompt_def)
qed

text \<open>After \<open>addMessage\<close> the session exists and its last message is the one appended.\<close>

lemma last_slice_from:
  assumes "xs \<noteq> []" and "n < length xs \<or> n = 0"
  shows "slice_from (- int n) xs \<noteq> [] \<and> last (slice_from (- int n) xs) = last xs"
proof (cases "n = 0")
  case True
  then show ?thesis using assms by (simp add: slice_from_def)
next
  case False
  with assms have "n < length xs" by simp
  then have "slice_from (- int n) xs = drop (length xs - n) xs"
    using False by (simp add: slice_from_def Let_def max_def nat_diff_distrib')
  moreover have "length xs - n < length xs" using False assms by simp
  ultimately show ?thesis by simp
qed

lemma addMessage_last:
  "\<exists>s. map_of (addMessage cfgMax newId now ss sid r c) sid = Some s
       \<and> messages s \<noteq> []
       \<and> last (messages s) = \<lparr>msg_id = newId, role = r, content = c, timestamp = now\<rparr>"
proof -
  let ?m = "\<lparr>msg_id = newId, role = r, content = c, timestamp = now\<rparr>"
  let ?session = "case map_of ss sid of
                    Some s \<Rightarrow> s
                  | None \<Rightarrow> \<lparr>sessionId = sid, messages = [], createdAt = now,
                             lastAccessed = now, maxMessages = cfgMax\<rparr>"
  let ?ms = "messages ?session @ [?m]"
  have "length ?ms > maxMessages ?session \<Longrightarrow>
          slice_from (- int (maxMessages ?session)) ?ms \<noteq> []
          \<and> last (slice_from (- int (maxMessages ?session)) ?ms) = last ?ms"
    by (intro last_slice_from) simp_all
  then show ?thesis
    by (simp add: addMessage_def Let_def update_conv')
qed

lemma getMemory_hit:
  "map_of ss sid = Some s \<Longrightarrow> fst (getMemory now ss sid) = Some (s\<lparr>lastAccessed := now\<rparr>)"
  by (simp add: getMemory_def)

lemma generateAIResponse_fallback:
  "generateCompletion model (completion_request prompt) = Inl err
     \<Longrightarrow> generateAIResponse model prompt message = fallback_reply message"
  by (simp add: generateAIResponse_def)

lemma includes_append: "str_includes (a @ m @ b) m"
proof (induction a)
  case Nil
  have "startsWith (m @ b) m" by (induction m) simp_all
  then show ?case by (cases "m @ b") (auto simp: )
next
  case (Cons c a)
  then show ?case by simp
qed

lemma fallback_echoes: "fallback_reply message \<noteq> [] \<and> str_includes (fallback_reply message) message"
proof -
  have "fallback_reply message = (''I understand you asked: '' @ [CHR 0x22]) @ message
      @ ([CHR 0x22] @ ''. Based on the available context, I can provide some information, but I'm currently experiencing technical difficulties with my AI generation capabilities.'')"
    by (simp add: fallback_reply_def)
  then have "str_includes (fallback_reply message) message"
    by (simp only: includes_append)
  moreover have "fallback_reply message \<noteq> []"
    by (simp add: fallback_reply_def)
  ultimately show ?thesis by simp
qed

text \<open>
  Claim C3. For every request, configuration, store and environment, the prompt is
  assembled without an error; and whenever the generation call on that prompt fails,
  \<open>processMessage\<close> does not abort. It returns a response whose reply is the fixed
  fallback text, which is not empty and contains the user's message; the fallback text
  was appended to the session as an assistant message before the response was built,
  and it is the last entry of \<open>memory_snapshot\<close> and the last message of the session in
  the store.
\<close>

theorem generation_failure_falls_back:
  "(\<exists>prompt. request_prompt cfg env ss sid message = Inr prompt)
   \<and> (\<forall>prompt err.
        request_prompt cfg env ss sid message = Inr prompt
        \<and> generateCompletion (env_gemini env) (completion_request prompt) = Inl err \<longrightarrow>
        (\<exists>response ss'.
           processMessage cfg env ss sid message = (Inr response, ss')
         \<and> reply response = fallback_reply message
         \<and> reply response \<noteq> []
         \<and> str_includes (reply response) message
         \<and> memory_snapshot response \<noteq> []
         \<and> last (memory_snapshot response)
             = \<lparr>snap_role = Assistant, snap_content = fallback_reply message,
                snap_timestamp = env_t_assistant env\<rparr>
         \<and> (\<exists>s. map_of ss' sid = Some s
                \<and> last (messages s)
                    = \<lparr>msg_id = env_id_assistant env, role = Assistant,
                       content = fallback_reply message, timestamp = env_t_assistant env\<rparr>)))"
proof (rule conjI)
  show "\<exists>prompt. request_prompt cfg env ss sid message = Inr prompt"
    by (rule request_prompt_returns)
next
  show "\<forall>prompt err.
        request_prompt cfg env ss sid message = Inr prompt
        \<and> generateCompletion (env_gemini env) (completion_request prompt) = Inl err \<longrightarrow>
        (\<exists>response ss'.
           processMessage cfg env ss sid message = (Inr response, ss')
         \<and> reply response = fallback_reply message
         \<and> reply response \<noteq> []
         \<and> str_includes (reply response) message
         \<and> memory_snapshot response \<noteq> []
         \<and> last (memory_snapshot response)
             = \<lparr>snap_role = Assistant, snap_content = fallback_reply message,
                snap_timestamp = env_t_assistant env\<rparr>
         \<and> (\<exists>s. map_of ss' sid = Some s
                \<and> last (messages s)
                    = \<lparr>msg_id = env_id_assistant env, role = Assistant,
                       content = fallback_reply message, timestamp = env_t_assistant env\<rparr>))"
  proof (intro allI impI, elim conjE)
    fix prompt err
    assume p: "request_prompt cfg env ss sid message = Inr prompt"
      and f: "generateCompletion (env_gemini env) (completion_request prompt) = Inl err"
    obtain ss2 summary rs docs where g: "gather cfg env ss sid message = (ss2, summary, rs, docs)"
      by (cases "gather cfg env ss sid message") auto
    from p g have b: "buildPrompt (env_num_str env) message summary docs rs = Inr prompt"
      by (simp add: request_prompt_def)
    let ?ai = "fallback_reply message"
    let ?m = "\<lparr>msg_id = env_id_assistant env, role = Assistant, content = ?ai,
               timestamp = env_t_assistant env\<rparr>"
    let ?ss3 = "addMessage (cfg_maxMessages cfg) (env_id_assistant env) (env_t_assistant env)
                  ss2 sid Assistant ?ai"
    obtain s where s: "map_of ?ss3 sid = Some s" "messages s \<noteq> []" "last (messages s) = ?m"
      using addMessage_last by blast
    let ?snap = "map (\<lambda>msg. \<lparr>snap_role = role msg, snap_content = content msg,
                              snap_timestamp = timestamp msg\<rparr>) (messages s)"
    let ?response = "\<lparr>reply = ?ai, used_chunks = docs, plugins_used = rs,
                       memory_snapshot = ?snap, session_id = sid\<rparr>"
    let ?ss4 = "AList.update sid (s\<lparr>lastAccessed := env_t_response env\<rparr>) ?ss3"
    have br: "buildResponse (env_t_response env) ?ss3 sid ?ai docs rs = (?response, ?ss4)"
      using s(1) by (simp add: buildResponse_def getMemory_def)
    have pm: "processMessage cfg env ss sid message = (Inr ?response, ?ss4)"
      using g b f br by (simp add: processMessage_def generateAIResponse_def Let_def)
    have sn: "?snap \<noteq> [] \<and> last ?snap = \<lparr>snap_role = Assistant, snap_content = ?ai,
                snap_timestamp = env_t_assistant env\<rparr>"
      using s(2,3) by (simp add: last_map)
    have st: "map_of ?ss4 sid = Some (s\<lparr>lastAccessed := env_t_response env\<rparr>)"
      by (simp add: update_conv')
    have "processMessage cfg env ss sid message = (Inr ?response, ?ss4)
         \<and> reply ?response = fallback_reply message
         \<and> reply ?response \<noteq> []
         \<and> str_includes (reply ?response) message
         \<and> memory_snapshot ?response \<noteq> []
         \<and> last (memory_snapshot ?response)
             = \<lparr>snap_role = Assistant, snap_content = fallback_reply message,
                snap_timestamp = env_t_assistant env\<rparr>
         \<and> (\<exists>s. map_of ?ss4 sid = Some s
                \<and> last (messages s)
                    = \<lparr>msg_id = env_id_assistant env, role = Assistant,
                       content = fallback_reply message, timestamp = env_t_assistant env\<rparr>)"
      using pm sn st s(3) fallback_echoes [of message] by simp
    then show "\<exists>response ss'.
           processMessage cfg env ss sid message = (Inr response, ss')
         \<and> reply response = fallback_reply message
         \<and> reply response \<noteq> []
         \<and> str_includes (reply response) message
         \<and> memory_snapshot response \<noteq> []
         \<and> last (memory_snapshot response)
             = \<lparr>snap_role = Assistant, snap_content = fallback_reply message,
                snap_timestamp = env_t_assistant env\<rparr>
         \<and> (\<exists>s. map_of ss' sid = Some s
                \<and> last (messages s)
                    = \<lparr>msg_id = env_id_assistant env, role = Assistant,
                       content = fallback_reply message, timestamp = env_t_assistant env\<rparr>)"
      by (intro exI [where x = "?response"] exI [where x = "?ss4"])
  qed
qed

text \<open>The model is not initialised: the request ends with the fallback reply.\<close>

theorem generation_failure_falls_back_witness:
  "\<exists>response ss'.
     processMessage default_config offline_env [] ''s1'' ''hello'' = (Inr response, ss')
   \<and> reply response = fallback_reply ''hello''
   \<and> last (memory_snapshot response)
       = \<lparr>snap_role = Assistant, snap_content = fallback_reply ''hello'', snap_timestamp = 30\<rparr>"
proof -
  note fb = generation_failure_falls_back [of default_config offline_env "[]" "''s1''" "''hello''"]
  from fb [THEN conjunct1] obtain prompt where
    p: "request_prompt default_config offline_env [] ''s1'' ''hello'' = Inr prompt" ..
  have f: "generateCompletion (env_gemini offline_env) (completion_request prompt)
             = Inl (Error ''Gemini model not initialized - API key required'')"
    by (simp add: generateCompletion_def offline_env_def)
  from fb [THEN conjunct2, rule_format, OF conjI [OF p f]]
  obtain response ss' where
    r: "processMessage default_config offline_env [] ''s1'' ''hello'' = (Inr response, ss')"
    and a: "reply response = fallback_reply ''hello''"
    and l: "last (memory_snapshot response)
       = \<lparr>snap_role = Assistant, snap_content = fallback_reply ''hello'',
          snap_timestamp = env_t_assistant offline_env\<rparr>"
    by (elim exE conjE)
  have t: "env_t_assistant offline_env = 30" by (simp add: offline_env_def)
  from r a l have all: "processMessage default_config offline_env [] ''s1'' ''hello'' = (Inr response, ss')
   \<and> reply response = fallback_reply ''hello''
   \<and> last (memory_snapshot response)
       = \<lparr>snap_role = Assistant, snap_content = fallback_reply ''hello'', snap_timestamp = 30\<rparr>"
    unfolding t by (intro conjI)
  show ?thesis
    by (rule exI [where x = response], rule exI [where x = ss']) (rule all)
qed

text \<open>
  A request \<open>What is 4*3?\<close> on a fresh store, with no matching documents and a model
  that answers \<open>12\<close>: the math plugin reports 12, no chunk is used, and the snapshot
  ends with the user message followed by the assistant reply.
\<close>

theorem end_to_end_math_request:
  "fst (processMessage default_config online_env [] ''s1'' ''What is 4*3?'')
     = Inr \<lparr>reply = ''12'', used_chunks = [],
            plugins_used =
              [\<lparr>name = ''math'', success = True,
                data = Some (MathPayload \<lparr>expression = ''4*3'', result = 12, m_timestamp = 12\<rparr>),
                error = None\<rparr>],
            memory_snapshot =
              [\<lparr>snap_role = User, snap_content = ''What is 4*3?'', snap_timestamp = 10\<rparr>,
               \<lparr>snap_role = Assistant, snap_content = ''12'', snap_timestamp = 30\<rparr>],
            session_id = ''s1''\<rparr>"
  by code_simp

end
